theory Spec2Isabelle
  imports Complex_Main "HOL-Library.Multiset" "HOL-Library.Char_ord" "HOL-Library.List_Lexorder"
    "HOL-Library.Sublist"
begin

section \<open>Strings and paths of the Python library\<close>

text \<open>
  The functions of Python's \<open>str\<close> and \<open>os.path\<close> (POSIX flavour) that the scripts
  call, on 8-bit strings. \<open>rfind\<close> is \<open>str.rfind\<close> for a single character: the
  last index of the character, or \<open>-1\<close>.
\<close>

definition rfind :: "char \<Rightarrow> string \<Rightarrow> int" where
  "rfind c s =
    (case List.find (\<lambda>i. s ! i = c) (rev [0..<length s]) of
       None \<Rightarrow> - 1
     | Some i \<Rightarrow> int i)"

text \<open>\<open>os.path.basename(p)\<close> is \<open>p[p.rfind('/') + 1:]\<close>.\<close>

definition basename :: "string \<Rightarrow> string" where
  "basename p = drop (nat (rfind CHR ''/'' p + 1)) p"

text \<open>
  \<open>os.path.dirname(p)\<close>: the head \<open>p[:p.rfind('/') + 1]\<close>, with its trailing slashes
  stripped unless it consists of slashes only.
\<close>

definition dirname :: "string \<Rightarrow> string" where
  "dirname p =
    (let head = take (nat (rfind CHR ''/'' p + 1)) p
     in if head \<noteq> [] \<and> \<not> list_all (\<lambda>c. c = CHR ''/'') head
        then rev (dropWhile (\<lambda>c. c = CHR ''/'') (rev head))
        else head)"

text \<open>\<open>os.path.join(a, b)\<close> for two components.\<close>

definition path_join :: "string \<Rightarrow> string \<Rightarrow> string" where
  "path_join a b =
    (if b \<noteq> [] \<and> hd b = CHR ''/'' then b
     else if a = [] \<or> last a = CHR ''/'' then a @ b
     else a @ ''/'' @ b)"

text \<open>
  \<open>os.path.splitext(p)\<close>: the extension starts at the last dot, provided that dot
  comes after the last slash and some character between the two is not a dot
  (leading dots of the file name belong to the root).
\<close>

definition splitext :: "string \<Rightarrow> string \<times> string" where
  "splitext p =
    (let sepIndex = rfind CHR ''/'' p;
         dotIndex = rfind CHR ''.'' p
     in if dotIndex > sepIndex
           \<and> list_ex (\<lambda>k. p ! k \<noteq> CHR ''.'') [nat (sepIndex + 1)..<nat dotIndex]
        then (take (nat dotIndex) p, drop (nat dotIndex) p)
        else (p, []))"

text \<open>
  \<open>str.strip()\<close> removes leading and trailing whitespace; \<open>is_space\<close> lists the 8-bit
  characters that \<open>str.isspace\<close> accepts.
\<close>

definition is_space :: "char \<Rightarrow> bool" where
  "is_space c = ((of_char c :: nat) \<in> {9, 10, 11, 12, 13, 28, 29, 30, 31, 32, 133, 160})"

definition strip :: "string \<Rightarrow> string" where
  "strip s = rev (dropWhile is_space (rev (dropWhile is_space s)))"



text \<open>The decimal digits of a natural number, as an f-string prints it.\<close>

function str_nat :: "nat \<Rightarrow> string" where
  "str_nat n =
    (if n < 10 then [char_of (48 + n)]
     else str_nat (n div 10) @ [char_of (48 + n mod 10)])"
  by pat_completeness auto
termination
  by (relation "measure (\<lambda>n. n)") auto

declare str_nat.simps [simp del]

section \<open>The 4-state barcode encoder (scripts/homework\_signer.py)\<close>

text \<open>
  Python strings are modelled as \<open>string\<close>, a list of 8-bit characters; a bar is a
  character, as in the source, where the bars of a character are the characters of a
  Python string such as \<open>'ATDA'\<close>.

  \<open>CHAR_MAP\<close> is the dictionary literal of the source, entry by entry, as an
  association list from the key character to its bars.
\<close>

definition CHAR_MAP :: "(char \<times> string) list" where
  "CHAR_MAP =
    [(CHR ''A'', ''ATDA''), (CHR ''B'', ''ADTA''), (CHR ''C'', ''AATD''), (CHR ''D'', ''ADAT''),
     (CHR ''E'', ''TADA''), (CHR ''F'', ''TDAA''),
     (CHR ''G'', ''TDDA''), (CHR ''H'', ''TADA''), (CHR ''I'', ''DTAA''), (CHR ''J'', ''DATD''),
     (CHR ''K'', ''DAAT''), (CHR ''L'', ''DAAD''),
     (CHR ''M'', ''ATAD''), (CHR ''N'', ''TDAA''), (CHR ''O'', ''TDAD''), (CHR ''P'', ''TDDA''),
     (CHR ''Q'', ''ATAA''), (CHR ''R'', ''AADT''),
     (CHR ''S'', ''AADT''), (CHR ''T'', ''AATA''), (CHR ''U'', ''ATDD''), (CHR ''V'', ''TADD''),
     (CHR ''W'', ''TDDA''), (CHR ''X'', ''TADA''),
     (CHR ''Y'', ''DTAA''), (CHR ''Z'', ''DATD''),
     (CHR ''0'', ''ADDA''), (CHR ''1'', ''DADA''), (CHR ''2'', ''DAAD''), (CHR ''3'', ''ADAD''),
     (CHR ''4'', ''DADA''), (CHR ''5'', ''DAAD''),
     (CHR ''6'', ''DDAA''), (CHR ''7'', ''DADA''), (CHR ''8'', ''DAAD''), (CHR ''9'', ''DDAA'')]"

text \<open>
  \<open>c.upper()\<close> on a one-character string. The letters \<open>a\<close> to \<open>z\<close> go to
  \<open>A\<close> to \<open>Z\<close>; every other ASCII character is unchanged. For an 8-bit character
  outside ASCII Python's result is never a key of \<open>CHAR_MAP\<close>, and neither is the
  character itself, which the model returns.
\<close>

definition upper :: "char \<Rightarrow> char" where
  "upper c =
    (let n = (of_char c :: nat)
     in if 97 \<le> n \<and> n \<le> 122 then char_of (n - 32) else c)"

text \<open>\<open>CHAR_MAP.get(c, 'ATDA')\<close>: the default for a character that is no key.\<close>

definition char_to_bars :: "char \<Rightarrow> string" where
  "char_to_bars c =
    (case map_of CHAR_MAP (upper c) of
       Some bars \<Rightarrow> bars
     | None \<Rightarrow> ''ATDA'')"

text \<open>The loop of \<open>encode_4state_barcode\<close>: \<open>bars.extend(char_to_bars(c))\<close> for each
  character of the data, from the empty list.\<close>

fun encode_loop :: "char list \<Rightarrow> string \<Rightarrow> char list" where
  "encode_loop bars [] = bars"
| "encode_loop bars (c # data) = encode_loop (bars @ char_to_bars c) data"

definition encode_4state_barcode :: "string \<Rightarrow> char list" where
  "encode_4state_barcode data = encode_loop [] data"

section \<open>Signing documents with UUIDs from a CSV file (scripts/homework\_signer.py)\<close>

text \<open>
  A row of the UUID file as \<open>csv.DictReader\<close> yields it for a file with the columns
  \<open>uuid\<close>, \<open>entity\<close> and \<open>state\<close>, the columns the signer itself writes back. The
  content of the CSV file is the list of its rows, in file order.
\<close>

record csv_row =
  uuid :: string
  entity :: string
  state :: string

text \<open>
  The test of the search loop:
  \<open>not row.get('entity', '').strip() and not row.get('state', '').strip()\<close>.
\<close>

definition available :: "csv_row \<Rightarrow> bool" where
  "available row \<longleftrightarrow> strip (entity row) = [] \<and> strip (state row) = []"

text \<open>
  The search loop \<open>for i, row in enumerate(rows): if ...: selected_uuid = row['uuid'];
  selected_index = i; break\<close>. \<open>None\<close> stands for \<open>selected_uuid is None\<close> after the
  loop.
\<close>

definition find_available :: "csv_row list \<Rightarrow> (nat \<times> string) option" where
  "find_available rows =
    map_option (\<lambda>(i, row). (i, uuid row))
      (List.find (\<lambda>(i, row). available row) (List.enumerate 0 rows))"

text \<open>
  \<open>rows[selected_index]['entity'] = e; rows[selected_index]['state'] = 'active'\<close>.
\<close>

definition mark_active :: "nat \<Rightarrow> string \<Rightarrow> csv_row list \<Rightarrow> csv_row list" where
  "mark_active selected_index e rows =
    rows[selected_index := (rows ! selected_index)\<lparr>entity := e, state := ''active''\<rparr>]"

datatype error = ImportError | FileNotFoundError | LibraryError


text \<open>
  \<open>sign_pdf_with_barcodes\<close>. What the function needs of its surroundings:
  whether PyMuPDF was imported, which paths exist, whether the library calls that build
  the signed copy of a page (given the page number, the template and the UUID) return,
  and whether saving the merged document (given its pages) returns.
\<close>

record pdf_env =
  HAS_PYMUPDF :: bool
  path_exists :: "string \<Rightarrow> bool"
  page_ok :: "nat \<Rightarrow> string \<Rightarrow> string \<Rightarrow> bool"
  save_ok :: "string list \<Rightarrow> bool"

type_synonym signed_page = "nat \<times> string \<times> string"

text \<open>
  The loop over the pages, \<open>for page_num in range(num_pages)\<close>, on the pages still to
  do, with the rows and the signed pages so far. It stops (\<open>break\<close>) when no row is
  available, and an exception leaves it.
\<close>

fun sign_pages ::
  "pdf_env \<Rightarrow> string \<Rightarrow> string \<Rightarrow> string \<Rightarrow> nat list \<Rightarrow> csv_row list \<Rightarrow> signed_page list \<Rightarrow>
   error + (csv_row list \<times> signed_page list)" where
  "sign_pages env template_svg_path output_dir output_path [] rows signed_pages =
     Inr (rows, signed_pages)"
| "sign_pages env template_svg_path output_dir output_path (page_num # pages) rows signed_pages =
    (case find_available rows of
       None \<Rightarrow> Inr (rows, signed_pages)
     | Some (selected_index, selected_uuid) \<Rightarrow>
        (let page_template_path =
               (if page_num mod 2 = 1 then ''calibration_page-coloured-1.svg''
                else ''calibration_page-coloured-0.svg'')
         in if \<not> path_exists env page_template_path \<and> \<not> path_exists env template_svg_path
            then Inl FileNotFoundError
            else
              (let page_template_path' =
                     (if \<not> path_exists env page_template_path then template_svg_path
                      else page_template_path);
                   temp_pdf = path_join output_dir (''temp_page_'' @ str_nat page_num @ ''.pdf'')
               in if \<not> page_ok env page_num page_template_path' selected_uuid
                  then Inl LibraryError
                  else sign_pages env template_svg_path output_dir output_path pages
                         (mark_active selected_index
                            (basename output_path @ ''_page_'' @ str_nat (page_num + 1)) rows)
                         (signed_pages @ [(page_num + 1, selected_uuid, temp_pdf)]))))"

text \<open>
  What a run that returns leaves behind: the returned pair, the temporary one-page
  documents inserted into the merged PDF, in order, and the rows written to the CSV
  file.
\<close>

record pdf_outcome =
  returned :: "string \<times> signed_page list"
  merged_pages :: "string list"
  csv_written :: "csv_row list"

definition sign_pdf_with_barcodes ::
  "pdf_env \<Rightarrow> string \<Rightarrow> nat \<Rightarrow> csv_row list \<Rightarrow> string option \<Rightarrow> string option \<Rightarrow> string \<Rightarrow>
   error + pdf_outcome" where
  "sign_pdf_with_barcodes env pdf_path num_pages rows output_path output_dir template_svg_path =
    (if \<not> HAS_PYMUPDF env then Inl ImportError
     else if \<not> path_exists env ''calibration_page-coloured-0.svg''
             \<and> \<not> path_exists env ''calibration_page-coloured-1.svg''
             \<and> \<not> path_exists env template_svg_path
     then Inl FileNotFoundError
     else
       (let output_dir' =
              (case output_dir of
                 None \<Rightarrow> (if dirname pdf_path = [] then ''.'' else dirname pdf_path)
               | Some d \<Rightarrow> d);
            output_path' =
              (case output_path of
                 None \<Rightarrow> path_join output_dir' (fst (splitext (basename pdf_path)) @ ''_signed.pdf'')
               | Some p \<Rightarrow> p)
        in case sign_pages env template_svg_path output_dir' output_path' [0..<num_pages] rows [] of
             Inl e \<Rightarrow> Inl e
           | Inr (rows', signed_pages) \<Rightarrow>
              (let merged = map (\<lambda>(page_num, u, temp_pdf_path). temp_pdf_path) signed_pages
               in if \<not> save_ok env merged then Inl LibraryError
                  else Inr \<lparr>returned = (output_path', signed_pages),
                            merged_pages = merged,
                            csv_written = rows'\<rparr>)))"




section \<open>Synthetic bar-chart tables (FieldChartOCR/generate\_synthetic\_bar\_tables.py)\<close>

text \<open>The three pools of labels, as the source lists them.\<close>

definition SINGLE_SERIES_CATEGORY_POOLS :: "string list list" where
  "SINGLE_SERIES_CATEGORY_POOLS =
    [[''Lion'', ''Zebra'', ''Bear'', ''Tiger'', ''Snake'', ''Giraffe'', ''Hippo''],
     [''Solar'', ''Wind'', ''Hydro'', ''Nuclear'', ''Geothermal'', ''Biomass''],
     [''Q1'', ''Q2'', ''Q3'', ''Q4''],
     [''Compressor'', ''Generator'', ''Pump'', ''Valve'', ''Sensor'', ''Actuator''],
     [''North'', ''South'', ''East'', ''West'', ''Central''],
     [''Prototype A'', ''Prototype B'', ''Prototype C'', ''Prototype D''],
     [''Apple'', ''Banana'', ''Cherry'', ''Date'', ''Fig''],
     [''Copper'', ''Iron'', ''Gold'', ''Silver'', ''Platinum''],
     [''Monday'', ''Tuesday'', ''Wednesday'', ''Thursday'', ''Friday''],
     [''Jazz'', ''Rock'', ''Pop'', ''Classical'', ''Hip-Hop''],
     [''Alpha'', ''Beta'', ''Gamma'', ''Delta'', ''Epsilon'', ''Zeta''],
     [''Python'', ''Java'', ''C++'', ''JavaScript'', ''Go'', ''Rust''],
     [''SUV'', ''Sedan'', ''Truck'', ''Coupe'', ''Convertible''],
     [''Red'', ''Green'', ''Blue'', ''Yellow'', ''Black'', ''White''],
     [''Dog'', ''Cat'', ''Rabbit'', ''Horse'', ''Sheep'', ''Cow''],
     [''Coffee'', ''Tea'', ''Juice'', ''Water'', ''Milk'', ''Soda''],
     [''Rectangle'', ''Circle'', ''Triangle'', ''Square'', ''Pentagon'', ''Hexagon''],
     [''Jazz'', ''Blues'', ''Reggae'', ''Funk'', ''Soul'', ''Country''],
     [''Chef'', ''Doctor'', ''Lawyer'', ''Engineer'', ''Artist''],
     [''Physics'', ''Chemistry'', ''Biology'', ''Math'', ''Geology'', ''Astronomy''],
     [''Bread'', ''Rice'', ''Pasta'', ''Potato'', ''Corn'', ''Quinoa''],
     [''Star'', ''Planet'', ''Comet'', ''Asteroid'', ''Nebula'', ''Galaxy''],
     [''Winter'', ''Spring'', ''Summer'', ''Autumn''],
     [''Guitar'', ''Piano'', ''Drums'', ''Violin'', ''Trumpet'', ''Cello''],
     [''Oak'', ''Pine'', ''Birch'', ''Maple'', ''Spruce'', ''Cedar''],
     [''Red'', ''Orange'', ''Yellow'', ''Green'', ''Blue'', ''Indigo'', ''Violet''],
     [''Circle'', ''Ellipse'', ''Arc'', ''Sector'', ''Chord''],
     [''Bus'', ''Train'', ''Plane'', ''Boat'', ''Bicycle'', ''Car''],
     [''Mercury'', ''Venus'', ''Earth'', ''Mars'', ''Jupiter'', ''Saturn''],
     [''Server'', ''Client'', ''Database'', ''Router'', ''Switch'']]"

definition GROUP_PRIMARY_LABELS :: "string list list" where
  "GROUP_PRIMARY_LABELS =
    [[''Green'', ''Blue'', ''Yellow'', ''Red'', ''Purple''],
     [''Project A'', ''Project B'', ''Project C'', ''Project D''],
     [''Team Alpha'', ''Team Beta'', ''Team Gamma'', ''Team Delta''],
     [''Year 1'', ''Year 2'', ''Year 3'', ''Year 4''],
     [''Summer'', ''Autumn'', ''Winter'', ''Spring''],
     [''Europe'', ''Asia'', ''Africa'', ''America''],
     [''Bronze'', ''Silver'', ''Gold'', ''Platinum''],
     [''Leader'', ''Member'', ''Advisor'', ''Intern''],
     [''Vanilla'', ''Chocolate'', ''Strawberry'', ''Mint'', ''Coffee''],
     [''CPU'', ''GPU'', ''RAM'', ''SSD'', ''HDD''],
     [''Morning'', ''Afternoon'', ''Evening'', ''Night''],
     [''Section 1'', ''Section 2'', ''Section 3'', ''Section 4''],
     [''Windows'', ''Mac'', ''Linux'', ''Unix''],
     [''Dog'', ''Cat'', ''Horse'', ''Bird''],
     [''Easy'', ''Medium'', ''Hard'', ''Expert''],
     [''Sales'', ''Marketing'', ''Engineering'', ''HR''],
     [''Primary'', ''Secondary'', ''Tertiary'', ''Quaternary''],
     [''Student'', ''Teacher'', ''Principal'', ''Counselor''],
     [''A'', ''B'', ''C'', ''D'', ''E'', ''F''],
     [''Sakura'', ''Rose'', ''Tulip'', ''Lily''],
     [''Song 1'', ''Song 2'', ''Song 3'', ''Song 4'', ''Song 5''],
     [''Batch 1'', ''Batch 2'', ''Batch 3''],
     [''Alpha 1'', ''Alpha 2'', ''Beta 1'', ''Beta 2''],
     [''Product X'', ''Product Y'', ''Product Z''],
     [''East'', ''West'', ''North'', ''South''],
     [''Freshman'', ''Sophomore'', ''Junior'', ''Senior''],
     [''Admin'', ''User'', ''Guest'', ''Moderator''],
     [''Quarter 1'', ''Quarter 2'', ''Quarter 3'', ''Quarter 4'']]"

definition GROUP_SECONDARY_LABELS :: "string list list" where
  "GROUP_SECONDARY_LABELS =
    [[''Preschool'', ''Primary'', ''Secondary''],
     [''On-Time'', ''Delayed'', ''Critical''],
     [''Low'', ''Medium'', ''High''],
     [''Week 1'', ''Week 2'', ''Week 3'', ''Week 4''],
     [''Yes'', ''No'', ''Maybe''],
     [''Standard'', ''Premium'', ''Deluxe''],
     [''1st'', ''2nd'', ''3rd''],
     [''Small'', ''Medium'', ''Large'', ''Extra Large''],
     [''Gold'', ''Silver'', ''Bronze''],
     [''Less'', ''Equal'', ''More''],
     [''Blue'', ''Red'', ''Green'', ''Yellow''],
     [''Pass'', ''Fail'', ''Incomplete''],
     [''Short'', ''Medium'', ''Tall''],
     [''Circle'', ''Square'', ''Triangle''],
     [''Spring'', ''Summer'', ''Autumn'', ''Winter''],
     [''Young'', ''Adult'', ''Senior''],
     [''Single'', ''Double'', ''Triple''],
     [''Morning'', ''Noon'', ''Night''],
     [''Home'', ''Away'', ''Neutral''],
     [''Odd'', ''Even'', ''Prime''],
     [''Mild'', ''Spicy'', ''Hot''],
     [''Economy'', ''Business'', ''First''],
     [''A'', ''B'', ''C'', ''D''],
     [''East'', ''West'', ''Central''],
     [''Red'', ''Green'', ''Blue''],
     [''Hot'', ''Warm'', ''Cool'', ''Cold''],
     [''Sunny'', ''Cloudy'', ''Rainy'', ''Snowy''],
     [''Alpha'', ''Beta'', ''Gamma'']]"

text \<open>The data class \<open>TableSpec\<close>; the header is the tuple of column names
  (the field \<open>notes\<close> is written \<open>notes'\<close>).\<close>

record TableSpec =
  table_type :: string
  header :: "string list"
  source_file :: string
  primary_label :: "string option"
  secondary_label :: "string option"
  notes' :: "string option"

text \<open>
  The module \<open>random\<close>. The generator is modelled by the raw material it delivers: draw
  number \<open>p\<close> is a natural number \<open>ints g p\<close> when an integer or a choice is asked for,
  a real number \<open>uniforms g p\<close> when \<open>random.uniform\<close> asks for a fraction in
  \<open>[0, 1)\<close>, and a real number \<open>normals g p\<close> when \<open>random.gauss\<close> asks for a standard
  normal deviate. Every function takes the position \<open>p\<close> in the stream of draws and
  returns the next position with its value, so a theorem for all \<open>g\<close> and \<open>p\<close> holds
  for every seed and every state of the generator. Floating-point arithmetic is
  modelled by arithmetic on real numbers.

  \<open>randint a b\<close> lies in \<open>[a, b]\<close>; the script calls it with \<open>a \<le> b\<close> only.
  \<open>choice\<close> picks an element of a sequence; the script's pools are not empty.
\<close>

record rng =
  ints :: "nat \<Rightarrow> nat"
  uniforms :: "nat \<Rightarrow> real"
  normals :: "nat \<Rightarrow> real"

definition randint :: "rng \<Rightarrow> int \<Rightarrow> int \<Rightarrow> nat \<Rightarrow> int \<times> nat" where
  "randint g a b p = (a + int (ints g p mod nat (b - a + 1)), p + 1)"

definition choice :: "rng \<Rightarrow> 'a list \<Rightarrow> nat \<Rightarrow> 'a \<times> nat" where
  "choice g xs p = (xs ! (ints g p mod length xs), p + 1)"

definition uniform :: "rng \<Rightarrow> real \<Rightarrow> real \<Rightarrow> nat \<Rightarrow> real \<times> nat" where
  "uniform g a b p = (a + (b - a) * uniforms g p, p + 1)"

definition gauss :: "rng \<Rightarrow> real \<Rightarrow> real \<Rightarrow> nat \<Rightarrow> real \<times> nat" where
  "gauss g mu sigma p = (mu + sigma * normals g p, p + 1)"

text \<open>Python's \<open>round\<close> of a float to an integer: to the nearest, a tie to the even one.\<close>

definition py_round :: "real \<Rightarrow> int" where
  "py_round x =
    (let f = \<lfloor>x\<rfloor>; d = x - of_int f
     in if d < 1 / 2 then f
        else if d > 1 / 2 then f + 1
        else if even f then f else f + 1)"

text \<open>\<open>sep.join(xs)\<close>.\<close>

fun join :: "string \<Rightarrow> string list \<Rightarrow> string" where
  "join sep [] = []"
| "join sep [x] = x"
| "join sep (x # y # xs) = x @ sep @ join sep (y # xs)"

definition random_from_pool :: "rng \<Rightarrow> string list list \<Rightarrow> nat \<Rightarrow> string list \<times> nat" where
  "random_from_pool g pool p = choice g pool p"

definition choose_labels ::
  "rng \<Rightarrow> string list list \<Rightarrow> int \<Rightarrow> int \<Rightarrow> nat \<Rightarrow> string list \<times> nat" where
  "choose_labels g pool min_len max_len p =
    (let (labels, p1) = random_from_pool g pool p;
         (k, p2) = randint g (min min_len (int (length labels))) (min max_len (int (length labels))) p1
     in (take (nat k) labels, p2))"

text \<open>The loop of \<open>gen_single_series\<close> over the labels, appending one row each.\<close>

fun single_rows ::
  "rng \<Rightarrow> string list \<Rightarrow> (string \<times> int) list \<Rightarrow> nat \<Rightarrow> (string \<times> int) list \<times> nat" where
  "single_rows g [] rows p = (rows, p)"
| "single_rows g (label # labels) rows p =
    (let (base, p1) = randint g 10 70 p;
         (noise, p2) = randint g (- 5) 8 p1;
         v = max 1 (base + noise)
     in single_rows g labels (rows @ [(label, v)]) p2)"

definition gen_single_series :: "rng \<Rightarrow> nat \<Rightarrow> (TableSpec \<times> (string \<times> int) list) \<times> nat" where
  "gen_single_series g p =
    (let (labels, p1) = choose_labels g SINGLE_SERIES_CATEGORY_POOLS 4 6 p;
         header = [''Category'', ''Value''];
         (rows, p2) = single_rows g labels [] p1;
         spec = \<lparr>table_type = ''single_series'',
                 header = header,
                 source_file = ''sample_table_001.csv'',
                 primary_label = None,
                 secondary_label = None,
                 notes' = Some ''Synthesized single-series bar chart table.''\<rparr>
     in ((spec, rows), p2))"

text \<open>
  \<open>weights = [abs(random.gauss(1.0, 0.4)) for _ in secondary_labels]\<close>: one draw for
  each secondary label.
\<close>

fun draw_weights :: "rng \<Rightarrow> string list \<Rightarrow> nat \<Rightarrow> real list \<times> nat" where
  "draw_weights g [] p = ([], p)"
| "draw_weights g (s # secondary_labels) p =
    (let (w, p1) = gauss g 1.0 0.4 p;
         (ws, p2) = draw_weights g secondary_labels p1
     in (\<bar>w\<bar> # ws, p2))"

text \<open>The inner loop over \<open>zip(secondary_labels, normalized)\<close>.\<close>

fun grouped_inner ::
  "rng \<Rightarrow> string \<Rightarrow> int \<Rightarrow> real \<Rightarrow> (string \<times> real) list \<Rightarrow> (string \<times> string \<times> int) list \<Rightarrow> nat \<Rightarrow>
   (string \<times> string \<times> int) list \<times> nat" where
  "grouped_inner g primary base share_total [] rows p = (rows, p)"
| "grouped_inner g primary base share_total ((secondary, weight) # rest) rows p =
    (let (u, p1) = uniform g (- 1.5) 1.5 p;
         v = max 1 (py_round (of_int base + share_total * weight + u))
     in grouped_inner g primary base share_total rest (rows @ [(primary, secondary, v)]) p1)"

text \<open>The outer loop over the primary labels.\<close>

fun grouped_rows ::
  "rng \<Rightarrow> string list \<Rightarrow> string list \<Rightarrow> (string \<times> string \<times> int) list \<Rightarrow> nat \<Rightarrow>
   (string \<times> string \<times> int) list \<times> nat" where
  "grouped_rows g [] secondary_labels rows p = (rows, p)"
| "grouped_rows g (primary # primary_labels) secondary_labels rows p =
    (let (base, p1) = randint g 5 9 p;
         (share_total, p2) = uniform g 12.0 25.0 p1;
         (weights, p3) = draw_weights g secondary_labels p2;
         weight_sum = (if sum_list weights = 0 then 1.0 else sum_list weights);
         normalized = map (\<lambda>w. w / weight_sum) weights;
         (rows', p4) = grouped_inner g primary base share_total (zip secondary_labels normalized) rows p3
     in grouped_rows g primary_labels secondary_labels rows' p4)"

definition gen_grouped_series ::
  "rng \<Rightarrow> nat \<Rightarrow> (TableSpec \<times> (string \<times> string \<times> int) list) \<times> nat" where
  "gen_grouped_series g p =
    (let (primary_labels, p1) = choose_labels g GROUP_PRIMARY_LABELS 3 5 p;
         (secondary_labels, p2) = choose_labels g GROUP_SECONDARY_LABELS 3 4 p1;
         header = [''Group'', ''Subgroup'', ''Value''];
         (rows, p3) = grouped_rows g primary_labels secondary_labels [] p2;
         spec = \<lparr>table_type = ''grouped_series'',
                 header = header,
                 source_file = ''sample_table_002.csv'',
                 primary_label = Some (join ''/'' primary_labels),
                 secondary_label = Some (join ''/'' secondary_labels),
                 notes' = Some ''Synthesized grouped bar chart table.''\<rparr>
     in ((spec, rows), p3))"

text \<open>A generator whose draws are all zero: the least value of every range.\<close>

definition zero_rng :: rng where
  "zero_rng = \<lparr>ints = (\<lambda>p. 0), uniforms = (\<lambda>p. 0), normals = (\<lambda>p. 0)\<rparr>"

section \<open>Splitting annotations for the COCO data set (scripts/convert\_to\_coco.py)\<close>


text \<open>\<open>int(x)\<close> of a float: truncation towards zero.\<close>

definition py_int :: "real \<Rightarrow> int" where
  "py_int v = (if 0 \<le> v then \<lfloor>v\<rfloor> else \<lceil>v\<rceil>)"






section \<open>The binary matrix of a QC square (scripts/extract\_binary\_matrix.py)\<close>

text \<open>
  The script reads an image, crops the grid region and thresholds a 5 by 5 grid of
  cells. The embedding starts at the cropped gray-scale \<open>grid_region\<close>, a
  two-dimensional array of 8-bit pixels, modelled as the list of its rows.
  \<open>shape\<close> is \<open>grid_region.shape\<close>, \<open>slice2 a y0 y1 x0 x1\<close> is the numpy slice
  \<open>a[y0:y1, x0:x1]\<close> (for bounds that are not negative, as they are here) and
  \<open>np_mean\<close> is \<open>np.mean\<close>, the sum of all pixels over their number.
\<close>

type_synonym gray = "nat list list"

definition shape :: "gray \<Rightarrow> nat \<times> nat" where
  "shape a = (length a, (case a of [] \<Rightarrow> 0 | r # _ \<Rightarrow> length r))"

definition slice2 :: "gray \<Rightarrow> nat \<Rightarrow> nat \<Rightarrow> nat \<Rightarrow> nat \<Rightarrow> gray" where
  "slice2 a y0 y1 x0 x1 = map (\<lambda>r. take (x1 - x0) (drop x0 r)) (take (y1 - y0) (drop y0 a))"

definition np_mean :: "gray \<Rightarrow> real" where
  "np_mean a = real (sum_list (concat a)) / real (length (concat a))"

text \<open>
  The sampling window of cell \<open>(i, j)\<close>: \<open>(y_start, y_end, x_start, x_end)\<close>, an
  eighth of the cell cut off at each edge. No subtraction goes below zero, since
  \<open>cell_h // 8 \<le> cell_h\<close>.
\<close>

definition cell_bounds :: "gray \<Rightarrow> nat \<Rightarrow> nat \<Rightarrow> nat \<times> nat \<times> nat \<times> nat" where
  "cell_bounds grid_region i j =
    (let (h, w) = shape grid_region;
         cell_h = h div 5;
         cell_w = w div 5;
         y_start = i * cell_h + cell_h div 8;
         y_end = (i + 1) * cell_h - cell_h div 8;
         x_start = j * cell_w + cell_w div 8;
         x_end = (j + 1) * cell_w - cell_w div 8
     in (y_start, y_end, x_start, x_end))"

text \<open>
  The body of the double loop: the entry of \<open>pattern_5x5\<close> at \<open>(i, j)\<close>. It starts as
  0 (\<open>np.zeros\<close>) and is set to 1 when the window is not empty and its mean is below
  128.
\<close>

definition cell_entry :: "gray \<Rightarrow> nat \<Rightarrow> nat \<Rightarrow> int" where
  "cell_entry grid_region i j =
    (let (y_start, y_end, x_start, x_end) = cell_bounds grid_region i j
     in if y_end > y_start \<and> x_end > x_start
        then (let mean_value = np_mean (slice2 grid_region y_start y_end x_start x_end)
              in if mean_value < 128 then 1 else 0)
        else 0)"

definition pattern_5x5 :: "gray \<Rightarrow> int list list" where
  "pattern_5x5 grid_region =
    map (\<lambda>i. map (\<lambda>j. cell_entry grid_region i j) [0..<5]) [0..<5]"

text \<open>
  \<open>pattern_6x6 = np.zeros((6, 6)); pattern_6x6[:5, :5] = pattern_5x5\<close>: the entries
  with both indices below 5 are copied, the others stay 0. The script prints
  \<open>pattern_6x6.tolist()\<close>, the list of rows.
\<close>

definition pattern_6x6 :: "gray \<Rightarrow> int list list" where
  "pattern_6x6 grid_region =
    (let p5 = pattern_5x5 grid_region
     in map (\<lambda>i. map (\<lambda>j. if i < 5 \<and> j < 5 then p5 ! i ! j else 0) [0..<6]) [0..<6])"

text \<open>A 5 by 5 pixel grid region: every cell is one pixel.\<close>

definition sample_grid :: gray where
  "sample_grid =
    [[0, 255, 0, 255, 127],
     [255, 255, 255, 255, 255],
     [0, 0, 0, 0, 0],
     [128, 128, 128, 127, 129],
     [10, 200, 10, 200, 10]]"

section \<open>Distorting the images of a folder (scripts/distort\_images\_pil.py)\<close>

text \<open>
  \<open>f.lower()\<close> on 8-bit strings: the letters \<open>A\<close> to \<open>Z\<close> go to \<open>a\<close> to \<open>z\<close>. A
  character outside ASCII never becomes one of the characters of \<open>.jpg\<close> or \<open>.jpeg\<close>,
  so the test for the extension below is the one of the source.
\<close>

definition lower_char :: "char \<Rightarrow> char" where
  "lower_char c =
    (let n = (of_char c :: nat)
     in if 65 \<le> n \<and> n \<le> 90 then char_of (n + 32) else c)"

definition lower :: "string \<Rightarrow> string" where
  "lower s = map lower_char s"

text \<open>\<open>f.lower().endswith(('.jpg', '.jpeg'))\<close>.\<close>

definition is_jpg :: "string \<Rightarrow> bool" where
  "is_jpg f \<longleftrightarrow> suffix ''.jpg'' (lower f) \<or> suffix ''.jpeg'' (lower f)"

text \<open>
  \<open>name, ext = os.path.splitext(filename); output_filename = f"{name}{suffix}{ext}"\<close>,
  as a function \<open>output_name\<close> of the suffix and the file name. The suffix argument of
  the source is written \<open>sfx\<close>.
\<close>

definition output_name :: "string \<Rightarrow> string \<Rightarrow> string" where
  "output_name sfx filename =
    (let (name, ext) = splitext filename in name @ sfx @ ext)"

text \<open>
  The state of a run: the names of the files in the input folder, the output files
  the run has saved so far, in order, and the two counters of the source.
\<close>

record distort_state =
  folder :: "string list"
  saved :: "string list"
  processed :: nat
  errors :: nat

text \<open>
  The loop over \<open>jpg_files\<close>. \<open>os.path.exists(output_path)\<close> looks the output name up in
  the folder. Opening, enhancing and saving the image are library calls; \<open>can_process\<close>
  tells for an input file whether they all return, in which case \<open>image.save\<close> has
  created the output file, or one of them raises, which the \<open>except\<close> clause counts as
  an error and which leaves no file behind.
\<close>

fun distort_loop ::
  "(string \<Rightarrow> bool) \<Rightarrow> string \<Rightarrow> string list \<Rightarrow> distort_state \<Rightarrow> distort_state" where
  "distort_loop can_process sfx [] st = st"
| "distort_loop can_process sfx (filename # jpg_files) st =
    (if output_name sfx filename \<in> set (folder st)
     then distort_loop can_process sfx jpg_files st
     else if can_process filename
     then distort_loop can_process sfx jpg_files
            (st\<lparr>folder := folder st @ [output_name sfx filename],
                saved := saved st @ [output_name sfx filename],
                processed := processed st + 1\<rparr>)
     else distort_loop can_process sfx jpg_files (st\<lparr>errors := errors st + 1\<rparr>))"

text \<open>
  \<open>distort_images\<close>. The input folder is \<open>None\<close> when it does not exist, and otherwise
  the names that \<open>os.listdir\<close> returns, in that order. The result is the state at the
  end of the run, \<open>None\<close> when there is no folder; the early return for a folder
  without JPG files leaves everything as it was.
\<close>

definition distort_images ::
  "(string \<Rightarrow> bool) \<Rightarrow> string list option \<Rightarrow> string \<Rightarrow> distort_state option" where
  "distort_images can_process input_folder sfx =
    (case input_folder of
       None \<Rightarrow> None
     | Some listing \<Rightarrow>
        (let jpg_files = filter is_jpg listing
         in if jpg_files = []
            then Some \<lparr>folder = listing, saved = [], processed = 0, errors = 0\<rparr>
            else Some (distort_loop can_process sfx
                   (filter (\<lambda>f. \<not> sublist sfx f) jpg_files)
                   \<lparr>folder = listing, saved = [], processed = 0, errors = 0\<rparr>)))"

text \<open>
  A folder with two photographs, the distorted copy of one of them, a text file and an
  image file for which the library calls raise.
\<close>

definition sample_folder :: "string list" where
  "sample_folder = [''a.jpg'', ''b.JPEG'', ''a_distorted.jpg'', ''notes.txt'', ''broken.jpg'']"

definition sample_can_process :: "string \<Rightarrow> bool" where
  "sample_can_process f \<longleftrightarrow> f \<noteq> ''broken.jpg''"

section \<open>Detecting the corner marker by template matching (scripts/auto\_detect\_corners.py)\<close>

text \<open>
  Images are gray-scale arrays, as in the section on the binary matrix: the image
  argument of \<open>detect_corner_with_templates\<close>, written \<open>img\<close>, is modelled after its
  conversion to gray scale. A template is the dictionary that \<open>load_templates\<close>
  builds, with its gray-scale image and its name.
\<close>

record template =
  t_image :: gray
  t_name :: string

text \<open>
  The calls into OpenCV for one template and one scale, \<open>cv2.resize\<close>,
  \<open>cv2.matchTemplate\<close> with \<open>TM_CCOEFF_NORMED\<close> and \<open>cv2.minMaxLoc\<close>, are a parameter
  of the model: from the search area, the template and the scaled width and height it
  yields \<open>max_val\<close>, the largest normalized correlation, and \<open>max_loc\<close>, the position
  \<open>(x, y)\<close> where it is attained. The model covers the runs in which these calls
  return.
\<close>

type_synonym matcher = "gray \<Rightarrow> gray \<Rightarrow> int \<Rightarrow> int \<Rightarrow> real \<times> (nat \<times> nat)"

text \<open>The default value of the argument \<open>scales\<close>.\<close>

definition DEFAULT_SCALES :: "real list" where
  "DEFAULT_SCALES = [0.5, 0.75, 1.0, 1.25, 1.5]"

text \<open>
  The inner loop, over the scales, for one template. The state is
  \<open>(best_confidence, best_location)\<close>; the region is
  \<open>(x_start, y_start, region_w, region_h)\<close>.
\<close>

fun scales_loop ::
  "matcher \<Rightarrow> gray \<Rightarrow> nat \<times> nat \<times> nat \<times> nat \<Rightarrow> template \<Rightarrow> real list \<Rightarrow>
   real \<times> (int option \<times> int option) \<Rightarrow> real \<times> (int option \<times> int option)" where
  "scales_loop match search_area region template [] best = best"
| "scales_loop match search_area (x_start, y_start, region_w, region_h) template (scale # scales)
     (best_confidence, best_location) =
    (let (t_h, t_w) = shape (t_image template);
         scaled_w = py_int (real t_w * scale);
         scaled_h = py_int (real t_h * scale)
     in if scaled_w > int region_w \<or> scaled_h > int region_h
        then scales_loop match search_area (x_start, y_start, region_w, region_h) template scales
               (best_confidence, best_location)
        else
          (let (max_val, max_loc) = match search_area (t_image template) scaled_w scaled_h
           in if max_val > best_confidence
              then scales_loop match search_area (x_start, y_start, region_w, region_h) template
                     scales
                     (max_val,
                      (Some (int (fst max_loc) + int x_start + scaled_w div 2),
                       Some (int (snd max_loc) + int y_start + scaled_h div 2)))
              else scales_loop match search_area (x_start, y_start, region_w, region_h) template
                     scales (best_confidence, best_location)))"

text \<open>The outer loop, over the templates.\<close>

fun templates_loop ::
  "matcher \<Rightarrow> gray \<Rightarrow> nat \<times> nat \<times> nat \<times> nat \<Rightarrow> real list \<Rightarrow> template list \<Rightarrow>
   real \<times> (int option \<times> int option) \<Rightarrow> real \<times> (int option \<times> int option)" where
  "templates_loop match search_area region scales [] best = best"
| "templates_loop match search_area region scales (template # templates) best =
     templates_loop match search_area region scales templates
       (scales_loop match search_area region template scales best)"

text \<open>The search region: the top right quadrant when none is given.\<close>

definition region_of :: "gray \<Rightarrow> (nat \<times> nat \<times> nat \<times> nat) option \<Rightarrow> nat \<times> nat \<times> nat \<times> nat" where
  "region_of image_gray search_region =
    (case search_region of
       None \<Rightarrow> (let (h, w) = shape image_gray in (w div 2, 0, w div 2, h div 2))
     | Some r \<Rightarrow> r)"

definition detect_corner_with_templates ::
  "matcher \<Rightarrow> gray option \<Rightarrow> template list \<Rightarrow> (nat \<times> nat \<times> nat \<times> nat) option \<Rightarrow> real list \<Rightarrow>
   int option \<times> int option \<times> real" where
  "detect_corner_with_templates match img templates search_region scales =
    (case img of
       None \<Rightarrow> (None, None, 0.0)
     | Some image_gray \<Rightarrow>
        (let (x_start, y_start, region_w, region_h) = region_of image_gray search_region;
             search_area =
               slice2 image_gray y_start (y_start + region_h) x_start (x_start + region_w);
             (best_confidence, best_location) =
               templates_loop match search_area (x_start, y_start, region_w, region_h) scales
                 templates (0.0, (None, None))
         in (fst best_location, snd best_location, best_confidence)))"

text \<open>
  \<open>load_templates\<close> and the two filters of \<open>auto_detect_corners\<close> on file names.
  \<open>imread\<close> stands for \<open>cv2.imread\<close> followed by the conversion to gray scale: \<open>None\<close>
  when the file cannot be loaded.
\<close>

definition is_image_file :: "string \<Rightarrow> bool" where
  "is_image_file f \<longleftrightarrow>
     suffix ''.jpg'' (lower f) \<or> suffix ''.jpeg'' (lower f) \<or> suffix ''.png'' (lower f)"

fun load_templates :: "(string \<Rightarrow> gray option) \<Rightarrow> string list \<Rightarrow> template list" where
  "load_templates imread [] = []"
| "load_templates imread (template_file # template_files) =
    (if is_image_file template_file
     then (case imread template_file of
             None \<Rightarrow> load_templates imread template_files
           | Some template_gray \<Rightarrow>
               \<lparr>t_image = template_gray, t_name = template_file\<rparr>
                 # load_templates imread template_files)
     else load_templates imread template_files)"

text \<open>
  An entry of the annotations: \<open>needs_review\<close> is \<open>None\<close> when the entry has no such
  key.
\<close>

record detection =
  det_x :: "real option"
  det_y :: "real option"
  confidence :: real
  needs_review :: "bool option"

text \<open>
  The body of the loop of \<open>auto_detect_corners\<close> for an image that was loaded: the
  detection and the entry stored for the image, one of three.
\<close>

definition annotation_entry :: "matcher \<Rightarrow> template list \<Rightarrow> real \<Rightarrow> gray \<Rightarrow> detection" where
  "annotation_entry match templates confidence_threshold img =
    (let (x, y, c) = detect_corner_with_templates match (Some img) templates None DEFAULT_SCALES
     in if x \<noteq> None \<and> y \<noteq> None \<and> c \<ge> confidence_threshold
        then \<lparr>det_x = map_option real_of_int x, det_y = map_option real_of_int y,
              confidence = c, needs_review = None\<rparr>
        else if c > 0
        then \<lparr>det_x = map_option real_of_int x, det_y = map_option real_of_int y,
              confidence = c, needs_review = Some True\<rparr>
        else \<lparr>det_x = None, det_y = None, confidence = 0.0, needs_review = Some True\<rparr>)"

text \<open>
  The loop over the image files; the annotations are a dictionary from file names to
  entries. An image that cannot be loaded is passed over (\<open>continue\<close>).
\<close>

fun detect_loop ::
  "matcher \<Rightarrow> (string \<Rightarrow> gray option) \<Rightarrow> template list \<Rightarrow> real \<Rightarrow> string list \<Rightarrow>
   (string \<rightharpoonup> detection) \<Rightarrow> (string \<rightharpoonup> detection)" where
  "detect_loop match imread templates confidence_threshold [] annotations = annotations"
| "detect_loop match imread templates confidence_threshold (image_file # image_files) annotations =
    (case imread image_file of
       None \<Rightarrow> detect_loop match imread templates confidence_threshold image_files annotations
     | Some img \<Rightarrow>
         detect_loop match imread templates confidence_threshold image_files
           (annotations(image_file \<mapsto>
              annotation_entry match templates confidence_threshold img)))"

text \<open>
  \<open>auto_detect_corners\<close>, from the listings of the two directories. The result is the
  dictionary written to the output file, \<open>None\<close> when the function returns without
  writing because no template was loaded.
\<close>

definition auto_detect_corners ::
  "matcher \<Rightarrow> (string \<Rightarrow> gray option) \<Rightarrow> (string \<Rightarrow> gray option) \<Rightarrow> string list \<Rightarrow> string list \<Rightarrow> real \<Rightarrow>
   (string \<rightharpoonup> detection) option" where
  "auto_detect_corners match imread_template imread template_dir image_dir confidence_threshold =
    (let templates = load_templates imread_template template_dir
     in if length templates = 0 then None
        else
          (let image_files = filter is_image_file image_dir;
               image_files' = filter (\<lambda>f. \<not> sublist ''_distorted'' f) image_files
           in Some (detect_loop match imread templates confidence_threshold image_files'
                      Map.empty)))"

text \<open>
  The matches that the two loops of \<open>detect_corner_with_templates\<close> go through, in
  their order: for every template and every scale whose scaled template fits into the
  region, the largest correlation with the centre of the scaled template at that
  position, in the coordinates of the full image.
\<close>

definition template_matches ::
  "matcher \<Rightarrow> gray \<Rightarrow> nat \<times> nat \<times> nat \<times> nat \<Rightarrow> template \<Rightarrow> real list \<Rightarrow> (real \<times> int \<times> int) list" where
  "template_matches match search_area region template scales =
    (case region of (x_start, y_start, region_w, region_h) \<Rightarrow>
      (case shape (t_image template) of (t_h, t_w) \<Rightarrow>
        map (\<lambda>scale.
               (fst (match search_area (t_image template)
                       (py_int (real t_w * scale)) (py_int (real t_h * scale))),
                int (fst (snd (match search_area (t_image template)
                       (py_int (real t_w * scale)) (py_int (real t_h * scale)))))
                  + int x_start + py_int (real t_w * scale) div 2,
                int (snd (snd (match search_area (t_image template)
                       (py_int (real t_w * scale)) (py_int (real t_h * scale)))))
                  + int y_start + py_int (real t_h * scale) div 2))
          (filter (\<lambda>scale. py_int (real t_w * scale) \<le> int region_w
                           \<and> py_int (real t_h * scale) \<le> int region_h) scales)))"

definition fitting_matches ::
  "matcher \<Rightarrow> gray \<Rightarrow> nat \<times> nat \<times> nat \<times> nat \<Rightarrow> real list \<Rightarrow> template list \<Rightarrow>
   (real \<times> int \<times> int) list" where
  "fitting_matches match search_area region scales templates =
    concat (map (\<lambda>template. template_matches match search_area region template scales) templates)"

text \<open>
  Taking the matches one by one and keeping a match only when it is strictly better
  than the best so far.
\<close>

fun first_best ::
  "(real \<times> int \<times> int) list \<Rightarrow> real \<times> (int option \<times> int option) \<Rightarrow>
   real \<times> (int option \<times> int option)" where
  "first_best [] best = best"
| "first_best ((v, cx, cy) # ms) (best_confidence, best_location) =
    first_best ms
      (if v > best_confidence then (v, (Some cx, Some cy)) else (best_confidence, best_location))"

text \<open>Sample data: an 8 by 8 image, a 4 by 4 template and two stand-ins for OpenCV.\<close>

definition sample_image :: gray where
  "sample_image = replicate 8 (replicate 8 100)"

definition sample_template :: template where
  "sample_template = \<lparr>t_image = replicate 4 (replicate 4 50), t_name = ''t.png''\<rparr>"

definition negative_match :: matcher where
  "negative_match search_area t w h = (- 1 / 2, (0, 0))"

definition sample_match :: matcher where
  "sample_match search_area t w h = (real_of_int w / 10, (1, 0))"

text \<open>
  A template directory with one template and an image directory with an image, a
  distorted copy, a text file and an image that does not load.
\<close>

definition sample_imread_template :: "string \<Rightarrow> gray option" where
  "sample_imread_template f = Some (replicate 4 (replicate 4 50))"

definition sample_image_dir :: "string list" where
  "sample_image_dir = [''a.jpg'', ''a_distorted.jpg'', ''notes.txt'', ''d.png'']"

definition sample_imread :: "string \<Rightarrow> gray option" where
  "sample_imread f = (if f = ''d.png'' then None else Some sample_image)"

section \<open>Properties of the barcode encoder\<close>

lemma encode_loop_concat: "encode_loop bars data = bars @ concat (map char_to_bars data)"
  by (induction data arbitrary: bars) simp_all

lemma encode_concat: "encode_4state_barcode data = concat (map char_to_bars data)"
  by (simp add: encode_4state_barcode_def encode_loop_concat)




lemma upper_digit_1: "upper CHR ''1'' = CHR ''1''"
  by (simp add: upper_def)

lemma upper_digit_4: "upper CHR ''4'' = CHR ''4''"
  by (simp add: upper_def)

lemma upper_E: "upper CHR ''E'' = CHR ''E''"
  by (simp add: upper_def)

lemma upper_H: "upper CHR ''H'' = CHR ''H''"
  by (simp add: upper_def)


lemma bars_1: "char_to_bars CHR ''1'' = ''DADA''"
  by (simp add: char_to_bars_def upper_digit_1 CHAR_MAP_def)

lemma bars_4: "char_to_bars CHR ''4'' = ''DADA''"
  by (simp add: char_to_bars_def upper_digit_4 CHAR_MAP_def)

lemma bars_E: "char_to_bars CHR ''E'' = ''TADA''"
  by (simp add: char_to_bars_def upper_E CHAR_MAP_def)

lemma bars_H: "char_to_bars CHR ''H'' = ''TADA''"
  by (simp add: char_to_bars_def upper_H CHAR_MAP_def)





text \<open>
  Claim C6: the character-to-bars map is not injective. The distinct characters \<open>1\<close>
  and \<open>4\<close>, and \<open>E\<close> and \<open>H\<close>, have identical bar sequences, so the distinct
  strings \<open>1\<close> and \<open>4\<close> have the same barcode: neither \<open>char_to_bars\<close> nor
  \<open>encode_4state_barcode\<close> is injective.
\<close>

theorem char_to_bars_not_injective:
  "char_to_bars CHR ''1'' = char_to_bars CHR ''4'' \<and> CHR ''1'' \<noteq> CHR ''4''
   \<and> char_to_bars CHR ''E'' = char_to_bars CHR ''H'' \<and> CHR ''E'' \<noteq> CHR ''H''
   \<and> encode_4state_barcode ''1'' = encode_4state_barcode ''4'' \<and> ''1'' \<noteq> ''4''
   \<and> \<not> inj char_to_bars \<and> \<not> inj encode_4state_barcode"
proof -
  have c: "char_to_bars CHR ''1'' = char_to_bars CHR ''4''"
    by (simp add: bars_1 bars_4)
  have e: "encode_4state_barcode ''1'' = encode_4state_barcode ''4''"
    by (simp add: encode_concat c)
  have "\<not> inj char_to_bars"
  proof
    assume "inj char_to_bars"
    from this c have "CHR ''1'' = CHR ''4''" by (rule injD)
    then show False by simp
  qed
  moreover have "\<not> inj encode_4state_barcode"
  proof
    assume "inj encode_4state_barcode"
    from this e have "''1'' = ''4''" by (rule injD)
    then show False by simp
  qed
  ultimately show ?thesis using c e by (simp add: bars_E bars_H)
qed

section \<open>Properties of the signers\<close>















lemma sign_pages_returns:
  assumes "\<And>n t u. page_ok env n t u" and "path_exists env template"
  shows "\<exists>r. sign_pages env template od op pages rows signed = Inr r"
proof (induction pages arbitrary: rows signed)
  case Nil
  show ?case by simp
next
  case (Cons page_num pages)
  show ?case
  proof (cases "find_available rows")
    case None
    then show ?thesis by simp
  next
    case (Some p)
    obtain i u where "p = (i, u)" by (cases p)
    with Some show ?thesis using assms Cons.IH by (simp add: Let_def)
  qed
qed








lemma sign_pdf_with_barcodes_returns:
  assumes "HAS_PYMUPDF env" and "path_exists env template_svg_path"
    and "\<And>n t u. page_ok env n t u" and "\<And>pages. save_ok env pages"
  shows "\<exists>out. sign_pdf_with_barcodes env pdf_path num_pages rows output_path output_dir
             template_svg_path = Inr out"
proof -
  let ?od = "case output_dir of
               None \<Rightarrow> (if dirname pdf_path = [] then ''.'' else dirname pdf_path)
             | Some d \<Rightarrow> d"
  let ?op = "case output_path of
               None \<Rightarrow> path_join ?od (fst (splitext (basename pdf_path)) @ ''_signed.pdf'')
             | Some p \<Rightarrow> p"
  from sign_pages_returns [of env template_svg_path ?od ?op "[0..<num_pages]" rows "[]"] assms(2,3)
  obtain r where "sign_pages env template_svg_path ?od ?op [0..<num_pages] rows [] = Inr r"
    by blast
  then show ?thesis
    using assms(1,2,4) by (cases r) (simp add: sign_pdf_with_barcodes_def Let_def)
qed

section \<open>Properties of the table generator\<close>

lemma randint_bounds:
  assumes "a \<le> b"
  shows "a \<le> fst (randint g a b p)" and "fst (randint g a b p) \<le> b"
proof -
  have pos: "0 < nat (b - a + 1)" using assms by simp
  have "ints g p mod nat (b - a + 1) < nat (b - a + 1)"
    using pos by (rule mod_less_divisor)
  then have "int (ints g p mod nat (b - a + 1)) \<le> b - a"
    using assms by linarith
  then show "fst (randint g a b p) \<le> b" by (simp add: randint_def)
  show "a \<le> fst (randint g a b p)" by (simp add: randint_def)
qed

lemma choice_in_set: "xs \<noteq> [] \<Longrightarrow> fst (choice g xs p) \<in> set xs"
  by (simp add: choice_def)

lemma single_pools_nonempty: "SINGLE_SERIES_CATEGORY_POOLS \<noteq> []"
  by (simp add: SINGLE_SERIES_CATEGORY_POOLS_def)

lemma single_pools_length:
  "pool \<in> set SINGLE_SERIES_CATEGORY_POOLS \<Longrightarrow> 4 \<le> length pool"
  unfolding SINGLE_SERIES_CATEGORY_POOLS_def by auto

lemma choose_labels_single_length:
  "4 \<le> length (fst (choose_labels g SINGLE_SERIES_CATEGORY_POOLS 4 6 p))"
  "length (fst (choose_labels g SINGLE_SERIES_CATEGORY_POOLS 4 6 p)) \<le> 6"
proof -
  obtain labels p1 where c: "random_from_pool g SINGLE_SERIES_CATEGORY_POOLS p = (labels, p1)"
    by (cases "random_from_pool g SINGLE_SERIES_CATEGORY_POOLS p")
  then have "labels = fst (choice g SINGLE_SERIES_CATEGORY_POOLS p)"
    by (simp add: random_from_pool_def)
  then have "labels \<in> set SINGLE_SERIES_CATEGORY_POOLS"
    using choice_in_set [OF single_pools_nonempty] by simp
  then have len: "4 \<le> length labels" by (rule single_pools_length)
  let ?lo = "min 4 (int (length labels))" and ?hi = "min 6 (int (length labels))"
  obtain k p2 where r: "randint g ?lo ?hi p1 = (k, p2)"
    by (cases "randint g ?lo ?hi p1")
  have "?lo \<le> ?hi" by simp
  from randint_bounds [OF this, of g p1] r have "?lo \<le> k" "k \<le> ?hi" by simp_all
  with len have k: "4 \<le> k" "k \<le> 6" "k \<le> int (length labels)" by simp_all
  have "fst (choose_labels g SINGLE_SERIES_CATEGORY_POOLS 4 6 p) = take (nat k) labels"
    by (simp add: choose_labels_def c r)
  with k show "4 \<le> length (fst (choose_labels g SINGLE_SERIES_CATEGORY_POOLS 4 6 p))"
    and "length (fst (choose_labels g SINGLE_SERIES_CATEGORY_POOLS 4 6 p)) \<le> 6"
    by simp_all
qed

lemma single_rows_length:
  "length (fst (single_rows g labels rows p)) = length rows + length labels"
  by (induction labels arbitrary: rows p) (simp_all add: case_prod_beta Let_def)

lemma single_rows_step:
  "single_rows g (label # labels) rows p =
     single_rows g labels
       (rows @ [(label, max 1 (fst (randint g 10 70 p)
                               + fst (randint g (- 5) 8 (snd (randint g 10 70 p)))))])
       (snd (randint g (- 5) 8 (snd (randint g 10 70 p))))"
  by (simp add: case_prod_beta Let_def)

lemma single_rows_values:
  "\<forall>(label, v)\<in>set rows. 1 \<le> v \<Longrightarrow>
   \<forall>(label, v)\<in>set (fst (single_rows g labels rows p)). 1 \<le> v"
proof (induction labels arbitrary: rows p)
  case Nil
  then show ?case by simp
next
  case (Cons label labels)
  show ?case
    unfolding single_rows_step
    by (rule Cons.IH) (use Cons.prems in auto)
qed

lemma grouped_inner_step:
  "grouped_inner g primary base share_total ((secondary, weight) # rest) rows p =
     grouped_inner g primary base share_total rest
       (rows @ [(primary, secondary,
                 max 1 (py_round (of_int base + share_total * weight
                                  + fst (uniform g (- 1.5) 1.5 p))))])
       (snd (uniform g (- 1.5) 1.5 p))"
  by (simp add: case_prod_beta Let_def)

lemma grouped_inner_values:
  "\<forall>(a, b, v)\<in>set rows. 1 \<le> v \<Longrightarrow>
   \<forall>(a, b, v)\<in>set (fst (grouped_inner g primary base share_total ws rows p)). 1 \<le> v"
proof (induction ws arbitrary: rows p)
  case Nil
  then show ?case by simp
next
  case (Cons w ws)
  obtain secondary weight where w: "w = (secondary, weight)" by (cases w)
  show ?case
    unfolding w grouped_inner_step
    by (rule Cons.IH) (use Cons.prems in auto)
qed

lemma grouped_rows_step:
  "\<exists>base share_total ws p3.
     grouped_rows g (primary # primary_labels) secondary_labels rows p =
       grouped_rows g primary_labels secondary_labels
         (fst (grouped_inner g primary base share_total ws rows p3))
         (snd (grouped_inner g primary base share_total ws rows p3))"
  by (simp add: case_prod_beta Let_def del: grouped_inner.simps) blast

lemma grouped_rows_values:
  "\<forall>(a, b, v)\<in>set rows. 1 \<le> v \<Longrightarrow>
   \<forall>(a, b, v)\<in>set (fst (grouped_rows g primary_labels secondary_labels rows p)). 1 \<le> v"
proof (induction primary_labels arbitrary: rows p)
  case Nil
  then show ?case by simp
next
  case (Cons primary primary_labels)
  from grouped_rows_step [of g primary primary_labels secondary_labels rows p]
  obtain base share_total ws p3 where
    step: "grouped_rows g (primary # primary_labels) secondary_labels rows p =
       grouped_rows g primary_labels secondary_labels
         (fst (grouped_inner g primary base share_total ws rows p3))
         (snd (grouped_inner g primary base share_total ws rows p3))"
    by blast
  show ?case
    unfolding step
    by (rule Cons.IH) (rule grouped_inner_values, rule Cons.prems)
qed

text \<open>
  Claim C9: every \<open>Value\<close> cell that \<open>gen_single_series\<close> and \<open>gen_grouped_series\<close>
  write is an integer greater than or equal to 1, and every single-series table has
  between 4 and 6 data rows under the header \<open>('Category', 'Value')\<close>, whatever the random
  generator delivers.
\<close>

theorem generated_values_at_least_one:
  "(\<forall>(label, v)\<in>set (snd (fst (gen_single_series g p))). 1 \<le> v)
   \<and> 4 \<le> length (snd (fst (gen_single_series g p)))
   \<and> length (snd (fst (gen_single_series g p))) \<le> 6
   \<and> header (fst (fst (gen_single_series g p))) = [''Category'', ''Value'']
   \<and> (\<forall>(primary, secondary, v)\<in>set (snd (fst (gen_grouped_series g q))). 1 \<le> v)"
proof -
  let ?labels = "fst (choose_labels g SINGLE_SERIES_CATEGORY_POOLS 4 6 p)"
  let ?p1 = "snd (choose_labels g SINGLE_SERIES_CATEGORY_POOLS 4 6 p)"
  have rows: "snd (fst (gen_single_series g p)) = fst (single_rows g ?labels [] ?p1)"
    by (simp add: gen_single_series_def case_prod_beta Let_def)
  have "\<forall>(label, v)\<in>set (snd (fst (gen_single_series g p))). 1 \<le> v"
    unfolding rows by (rule single_rows_values) simp
  moreover have "4 \<le> length (snd (fst (gen_single_series g p)))"
    and "length (snd (fst (gen_single_series g p))) \<le> 6"
    using choose_labels_single_length [of g p] by (simp_all add: rows single_rows_length)
  moreover have "header (fst (fst (gen_single_series g p))) = [''Category'', ''Value'']"
    by (simp add: gen_single_series_def case_prod_beta Let_def)
  moreover have "\<forall>(primary, secondary, v)\<in>set (snd (fst (gen_grouped_series g q))). 1 \<le> v"
  proof -
    have "\<exists>pls sls p2. snd (fst (gen_grouped_series g q)) = fst (grouped_rows g pls sls [] p2)"
      by (simp add: gen_grouped_series_def case_prod_beta Let_def del: grouped_rows.simps) blast
    then obtain pls sls p2 where
      g: "snd (fst (gen_grouped_series g q)) = fst (grouped_rows g pls sls [] p2)"
      by blast
    show ?thesis unfolding g by (rule grouped_rows_values) simp
  qed
  ultimately show ?thesis by blast
qed

lemma zero_rng_single:
  "snd (fst (gen_single_series zero_rng 0)) =
     [(''Lion'', 5), (''Zebra'', 5), (''Bear'', 5), (''Tiger'', 5)]"
  by code_simp

lemma zero_rng_grouped:
  "snd (fst (gen_grouped_series zero_rng 0)) =
   [(''Green'', ''Preschool'', 8), (''Green'', ''Primary'', 8),
    (''Green'', ''Secondary'', 8), (''Blue'', ''Preschool'', 8),
    (''Blue'', ''Primary'', 8), (''Blue'', ''Secondary'', 8),
    (''Yellow'', ''Preschool'', 8), (''Yellow'', ''Primary'', 8),
    (''Yellow'', ''Secondary'', 8)]"
  by code_simp

theorem generated_values_at_least_one_witness:
  "snd (fst (gen_single_series zero_rng 0)) =
     [(''Lion'', 5), (''Zebra'', 5), (''Bear'', 5), (''Tiger'', 5)]
   \<and> (1::int) \<le> 5
   \<and> 4 \<le> length (snd (fst (gen_single_series zero_rng 0)))
   \<and> length (snd (fst (gen_single_series zero_rng 0))) \<le> 6
   \<and> (''Blue'', ''Primary'', 8) \<in> set (snd (fst (gen_grouped_series zero_rng 0)))
   \<and> (1::int) \<le> 8"
  using generated_values_at_least_one [of zero_rng 0 0]
  by (simp add: zero_rng_single zero_rng_grouped)
section \<open>Properties of the COCO split\<close>









section \<open>Properties of the image distortion\<close>

lemma output_name_has_suffix: "sublist sfx (output_name sfx f)"
  by (simp add: output_name_def split: prod.splits)

lemma distort_loop_grows:
  "\<exists>new. folder (distort_loop ok sfx fs st) = folder st @ new
       \<and> saved (distort_loop ok sfx fs st) = saved st @ new
       \<and> set new \<subseteq> output_name sfx ` {f \<in> set fs. ok f}
       \<and> set new \<inter> set (folder st) = {}"
proof (induction fs arbitrary: st)
  case Nil
  show ?case by simp
next
  case (Cons f fs)
  let ?out = "output_name sfx f"
  show ?case
  proof (cases "?out \<in> set (folder st)")
    case True
    from Cons.IH [of st] obtain new where
      "folder (distort_loop ok sfx fs st) = folder st @ new"
      "saved (distort_loop ok sfx fs st) = saved st @ new"
      "set new \<subseteq> output_name sfx ` {f \<in> set fs. ok f}"
      "set new \<inter> set (folder st) = {}"
      by blast
    with True show ?thesis by (intro exI [of _ new]) auto
  next
    case False
    show ?thesis
    proof (cases "ok f")
      case ok: True
      let ?st = "st\<lparr>folder := folder st @ [?out], saved := saved st @ [?out],
                     processed := processed st + 1\<rparr>"
      from Cons.IH [of ?st] obtain new where n:
        "folder (distort_loop ok sfx fs ?st) = folder ?st @ new"
        "saved (distort_loop ok sfx fs ?st) = saved ?st @ new"
        "set new \<subseteq> output_name sfx ` {f \<in> set fs. ok f}"
        "set new \<inter> set (folder ?st) = {}"
        by blast
      have step: "distort_loop ok sfx (f # fs) st = distort_loop ok sfx fs ?st"
        using False ok by simp
      show ?thesis
        unfolding step using n False ok by (intro exI [of _ "?out # new"]) auto
    next
      case no: False
      let ?st = "st\<lparr>errors := errors st + 1\<rparr>"
      from Cons.IH [of ?st] obtain new where n:
        "folder (distort_loop ok sfx fs ?st) = folder ?st @ new"
        "saved (distort_loop ok sfx fs ?st) = saved ?st @ new"
        "set new \<subseteq> output_name sfx ` {f \<in> set fs. ok f}"
        "set new \<inter> set (folder ?st) = {}"
        by blast
      have step: "distort_loop ok sfx (f # fs) st = distort_loop ok sfx fs ?st"
        using False no by simp
      show ?thesis
        unfolding step using n by (intro exI [of _ new]) auto
    qed
  qed
qed

lemma distort_loop_mono: "set (folder st) \<subseteq> set (folder (distort_loop ok sfx fs st))"
  using distort_loop_grows [of ok sfx fs st] by auto

lemma distort_loop_done:
  "f \<in> set fs \<Longrightarrow> output_name sfx f \<in> set (folder (distort_loop ok sfx fs st)) \<or> \<not> ok f"
proof (induction fs arbitrary: st)
  case Nil
  then show ?case by simp
next
  case (Cons g fs)
  show ?case
  proof (cases "f = g")
    case True
    let ?out = "output_name sfx g"
    show ?thesis
    proof (cases "?out \<in> set (folder st)")
      case ex: True
      then have "?out \<in> set (folder (distort_loop ok sfx fs st))"
        using distort_loop_mono by blast
      with ex True show ?thesis by simp
    next
      case nex: False
      show ?thesis
      proof (cases "ok g")
        case ok: True
        let ?st = "st\<lparr>folder := folder st @ [?out], saved := saved st @ [?out],
                       processed := processed st + 1\<rparr>"
        have "?out \<in> set (folder ?st)" by simp
        then have "?out \<in> set (folder (distort_loop ok sfx fs ?st))"
          using distort_loop_mono by blast
        with nex ok True show ?thesis by simp
      next
        case False
        with True show ?thesis by simp
      qed
    qed
  next
    case False
    with Cons.prems have "f \<in> set fs" by simp
    from Cons.IH [OF this] show ?thesis by simp
  qed
qed

lemma distort_loop_noop:
  "\<forall>f\<in>set fs. output_name sfx f \<in> set (folder st) \<or> \<not> ok f \<Longrightarrow>
   folder (distort_loop ok sfx fs st) = folder st
   \<and> saved (distort_loop ok sfx fs st) = saved st
   \<and> processed (distort_loop ok sfx fs st) = processed st"
  by (induction fs arbitrary: st) auto

text \<open>
  Claim C7: \<open>distort_images\<close> is idempotent at the level of the set of files. A run
  saves output files only for JPG inputs whose name does not contain the suffix, and
  never under a name that exists already. A second run on the folder as the first run
  left it (its files listed in any order), with the same suffix, saves no file at all
  and leaves the folder as it is. Whether the library calls for an input file return
  or raise is taken to be the same in both runs.
\<close>

theorem distort_images_idempotent:
  assumes run1: "distort_images can_process (Some listing) sfx = Some st1"
    and same: "set listing2 = set (folder st1)"
    and run2: "distort_images can_process (Some listing2) sfx = Some st2"
  shows "saved st2 = [] \<and> folder st2 = listing2 \<and> processed st2 = 0
    \<and> set (folder st1) = set listing \<union> set (saved st1)
    \<and> (\<forall>out\<in>set (saved st1).
          out \<notin> set listing
          \<and> (\<exists>f\<in>set listing. is_jpg f \<and> \<not> sublist sfx f \<and> can_process f
                \<and> out = output_name sfx f))"
proof -
  let ?init = "\<lparr>folder = listing, saved = [], processed = 0, errors = 0\<rparr>"
  let ?init2 = "\<lparr>folder = listing2, saved = [], processed = 0, errors = 0\<rparr>"
  let ?in1 = "filter (\<lambda>f. \<not> sublist sfx f) (filter is_jpg listing)"
  let ?in2 = "filter (\<lambda>f. \<not> sublist sfx f) (filter is_jpg listing2)"
  have st2: "st2 = ?init2 \<or> st2 = distort_loop can_process sfx ?in2 ?init2"
    using run2 by (auto simp: distort_images_def Let_def split: if_splits)
  show ?thesis
  proof (cases "filter is_jpg listing = []")
    case True
    then have st1: "st1 = ?init"
      using run1 by (simp add: distort_images_def)
    then have "set listing2 = set listing" using same by simp
    then have "filter is_jpg listing2 = []"
      using True by (auto simp: filter_empty_conv)
    then have "st2 = ?init2"
      using run2 by (simp add: distort_images_def)
    with st1 show ?thesis by simp
  next
    case False
    then have st1: "st1 = distort_loop can_process sfx ?in1 ?init"
      using run1 by (simp add: distort_images_def)
    from distort_loop_grows [of can_process sfx ?in1 ?init] obtain new where
      new: "folder st1 = listing @ new" "saved st1 = new"
        "set new \<subseteq> output_name sfx ` {f \<in> set ?in1. can_process f}"
        "set new \<inter> set listing = {}"
      unfolding st1 by auto
    have pre: "\<forall>f\<in>set ?in2. output_name sfx f \<in> set (folder ?init2) \<or> \<not> can_process f"
    proof
      fix f assume f: "f \<in> set ?in2"
      then have "f \<in> set listing \<union> set new" "is_jpg f" "\<not> sublist sfx f"
        using same new(1) by auto
      moreover have "f \<notin> set new"
      proof
        assume "f \<in> set new"
        with new(3) obtain g where "f = output_name sfx g" by auto
        then have "sublist sfx f" by (simp add: output_name_has_suffix)
        with \<open>\<not> sublist sfx f\<close> show False by simp
      qed
      ultimately have "f \<in> set ?in1" by simp
      from distort_loop_done [OF this, of sfx can_process ?init]
      have "output_name sfx f \<in> set (folder st1) \<or> \<not> can_process f"
        unfolding st1 .
      then show "output_name sfx f \<in> set (folder ?init2) \<or> \<not> can_process f"
        using same by simp
    qed
    from distort_loop_noop [OF pre] st2
    have r2: "saved st2 = []" "folder st2 = listing2" "processed st2 = 0"
      by auto
    have "set (folder st1) = set listing \<union> set (saved st1)"
      using new by simp
    moreover have "\<forall>out\<in>set (saved st1).
          out \<notin> set listing
          \<and> (\<exists>f\<in>set listing. is_jpg f \<and> \<not> sublist sfx f \<and> can_process f
                \<and> out = output_name sfx f)"
      using new(2,3,4) by auto
    ultimately show ?thesis using r2 by simp
  qed
qed

lemma sample_first_run:
  "distort_images sample_can_process (Some sample_folder) ''_distorted'' =
    Some \<lparr>folder = [''a.jpg'', ''b.JPEG'', ''a_distorted.jpg'', ''notes.txt'', ''broken.jpg'',
                     ''b_distorted.JPEG''],
          saved = [''b_distorted.JPEG''], processed = 1, errors = 1\<rparr>"
  by code_simp

lemma sample_second_run:
  "distort_images sample_can_process
     (Some [''b_distorted.JPEG'', ''a.jpg'', ''b.JPEG'', ''a_distorted.jpg'', ''notes.txt'',
            ''broken.jpg'']) ''_distorted'' =
    Some \<lparr>folder = [''b_distorted.JPEG'', ''a.jpg'', ''b.JPEG'', ''a_distorted.jpg'', ''notes.txt'',
                     ''broken.jpg''],
          saved = [], processed = 0, errors = 1\<rparr>"
  by code_simp

theorem distort_images_idempotent_witness:
  "set [''b_distorted.JPEG'', ''a.jpg'', ''b.JPEG'', ''a_distorted.jpg'', ''notes.txt'', ''broken.jpg'']
     = set [''a.jpg'', ''b.JPEG'', ''a_distorted.jpg'', ''notes.txt'', ''broken.jpg'',
            ''b_distorted.JPEG'']
   \<and> ''b_distorted.JPEG'' \<notin> set sample_folder
   \<and> (\<exists>f\<in>set sample_folder. is_jpg f \<and> \<not> sublist ''_distorted'' f \<and> sample_can_process f
         \<and> ''b_distorted.JPEG'' = output_name ''_distorted'' f)"
proof -
  have s: "set [''b_distorted.JPEG'', ''a.jpg'', ''b.JPEG'', ''a_distorted.jpg'', ''notes.txt'',
                ''broken.jpg'']
     = set (folder \<lparr>folder = [''a.jpg'', ''b.JPEG'', ''a_distorted.jpg'', ''notes.txt'',
                              ''broken.jpg'', ''b_distorted.JPEG''],
                    saved = [''b_distorted.JPEG''], processed = 1, errors = 1\<rparr>)"
    by auto
  from distort_images_idempotent [OF sample_first_run s sample_second_run]
  show ?thesis using s by simp
qed
section \<open>Properties of the corner detection\<close>

lemma first_best_append: "first_best (xs @ ys) best = first_best ys (first_best xs best)"
  by (induction xs best rule: first_best.induct) simp_all

lemma scales_loop_first_best:
  "scales_loop match search_area region template scales best =
     first_best (template_matches match search_area region template scales) best"
proof (induction scales arbitrary: best)
  case Nil
  show ?case by (simp add: template_matches_def split: prod.splits)
next
  case (Cons scale scales)
  obtain x_start y_start region_w region_h where r: "region = (x_start, y_start, region_w, region_h)"
    by (cases region)
  obtain bc bl where b: "best = (bc, bl)" by (cases best)
  obtain t_h t_w where s: "shape (t_image template) = (t_h, t_w)"
    by (cases "shape (t_image template)")
  show ?case
    using Cons.IH
    by (simp add: r b s template_matches_def Let_def case_prod_beta not_less)
qed

lemma templates_loop_first_best:
  "templates_loop match search_area region scales templates best =
     first_best (fitting_matches match search_area region scales templates) best"
  by (induction templates arbitrary: best)
     (simp_all add: fitting_matches_def first_best_append scales_loop_first_best)

lemma first_best_spec:
  assumes "first_best ms (bc, bl) = (c, l)"
  shows "c = Max (insert bc (fst ` set ms))"
    and "bc < c \<Longrightarrow> \<exists>k<length ms. fst (ms ! k) = c \<and> (\<forall>j<k. fst (ms ! j) < c)
            \<and> l = (Some (fst (snd (ms ! k))), Some (snd (snd (ms ! k))))"
    and "c \<le> bc \<Longrightarrow> c = bc \<and> l = bl"
  using assms
proof (induction ms arbitrary: bc bl)
  case Nil
  { case 1 then show ?case by simp }
  { case 2 then show ?case by simp }
  { case 3 then show ?case by simp }
next
  case (Cons m ms)
  obtain v cx cy where m: "m = (v, cx, cy)" by (cases m)
  { case 1
    show ?case
    proof (cases "v > bc")
      case True
      with 1 m have "first_best ms (v, (Some cx, Some cy)) = (c, l)" by simp
      from Cons.IH(1) [OF this] have "c = Max (insert v (fst ` set ms))" .
      moreover have "v \<le> Max (insert v (fst ` set ms))"
        by (rule Max_ge) simp_all
      with True have "bc \<le> Max (insert v (fst ` set ms))" by linarith
      then have "max bc (Max (insert v (fst ` set ms))) = Max (insert v (fst ` set ms))"
        by (rule max_absorb2)
      moreover have "Max (insert bc (insert v (fst ` set ms)))
          = max bc (Max (insert v (fst ` set ms)))"
        by (rule Max_insert) simp_all
      ultimately have "Max (insert bc (insert v (fst ` set ms))) = c"
        by (simp only:)
      then show ?thesis by (simp add: m insert_commute)
    next
      case False
      with 1 m have "first_best ms (bc, bl) = (c, l)" by simp
      from Cons.IH(1) [OF this] have "c = Max (insert bc (fst ` set ms))" .
      moreover have "bc \<le> Max (insert bc (fst ` set ms))"
        by (rule Max_ge) simp_all
      with False have "v \<le> Max (insert bc (fst ` set ms))" by linarith
      then have "max v (Max (insert bc (fst ` set ms))) = Max (insert bc (fst ` set ms))"
        by (rule max_absorb2)
      moreover have "Max (insert v (insert bc (fst ` set ms)))
          = max v (Max (insert bc (fst ` set ms)))"
        by (rule Max_insert) simp_all
      ultimately have "Max (insert v (insert bc (fst ` set ms))) = c"
        by (simp only:)
      then show ?thesis by (simp add: m insert_commute)
    qed }
  { case 2
    show ?case
    proof (cases "v > bc")
      case True
      with 2 m have f: "first_best ms (v, (Some cx, Some cy)) = (c, l)" by simp
      show ?thesis
      proof (cases "v < c")
        case vc: True
        from Cons.IH(2) [OF vc f] obtain k where
          k: "k < length ms" "fst (ms ! k) = c" "\<forall>j<k. fst (ms ! j) < c"
             "l = (Some (fst (snd (ms ! k))), Some (snd (snd (ms ! k))))"
          by blast
        have "\<forall>j<Suc k. fst ((m # ms) ! j) < c"
          using k(3) vc m by (auto simp: less_Suc_eq_0_disj)
        with k show ?thesis by (intro exI [of _ "Suc k"]) simp
      next
        case False
        then have "c \<le> v" by simp
        from Cons.IH(3) [OF this f] have "c = v" "l = (Some cx, Some cy)" by simp_all
        then show ?thesis using m by (intro exI [of _ 0]) simp
      qed
    next
      case False
      with 2 m have f: "first_best ms (bc, bl) = (c, l)" by simp
      from Cons.IH(2) [OF 2(1) f] obtain k where
        k: "k < length ms" "fst (ms ! k) = c" "\<forall>j<k. fst (ms ! j) < c"
           "l = (Some (fst (snd (ms ! k))), Some (snd (snd (ms ! k))))"
        by blast
      have "v < c" using False 2(1) by simp
      then have "\<forall>j<Suc k. fst ((m # ms) ! j) < c"
        using k(3) m by (auto simp: less_Suc_eq_0_disj)
      with k show ?thesis by (intro exI [of _ "Suc k"]) simp
    qed }
  { case 3
    show ?case
    proof (cases "v > bc")
      case True
      with 3 m have f: "first_best ms (v, (Some cx, Some cy)) = (c, l)" by simp
      from Cons.IH(1) [OF f] have "c = Max (insert v (fst ` set ms))" .
      then have "v \<le> c" by simp
      with True 3(1) show ?thesis by simp
    next
      case False
      with 3 m have f: "first_best ms (bc, bl) = (c, l)" by simp
      from Cons.IH(3) [OF 3(1) f] show ?thesis .
    qed }
qed

text \<open>
  Claim C2, as stated, fails when no fitting template and scale has a positive
  correlation: all three fitting scales of the sample template have the correlation
  \<open>-0.5\<close>, the largest correlation is \<open>-0.5\<close>, and the function returns
  \<open>(None, None, 0.0)\<close>.
\<close>

theorem detect_corner_negative_correlation:
  "fitting_matches negative_match
       (slice2 sample_image 0 (0 + 4) 4 (4 + 4)) (4, 0, 4, 4) DEFAULT_SCALES [sample_template]
     = [(- 1 / 2, 5, 1), (- 1 / 2, 5, 1), (- 1 / 2, 6, 2)]
   \<and> region_of sample_image None = (4, 0, 4, 4)
   \<and> Max (fst ` set [(- 1 / 2 :: real, 5 :: int, 1 :: int), (- 1 / 2, 5, 1), (- 1 / 2, 6, 2)]) = - 1 / 2
   \<and> detect_corner_with_templates negative_match (Some sample_image) [sample_template] None
         DEFAULT_SCALES = (None, None, 0)"
proof -
  have "fitting_matches negative_match
       (slice2 sample_image 0 (0 + 4) 4 (4 + 4)) (4, 0, 4, 4) DEFAULT_SCALES [sample_template]
     = [(- 1 / 2, 5, 1), (- 1 / 2, 5, 1), (- 1 / 2, 6, 2)]"
    by code_simp
  moreover have "region_of sample_image None = (4, 0, 4, 4)"
    by code_simp
  moreover have "Max (fst ` set [(- 1 / 2 :: real, 5 :: int, 1 :: int), (- 1 / 2, 5, 1), (- 1 / 2, 6, 2)]) = - 1 / 2"
    by simp
  moreover have "detect_corner_with_templates negative_match (Some sample_image) [sample_template]
      None DEFAULT_SCALES = (None, None, 0)"
    by code_simp
  ultimately show ?thesis by (intro conjI)
qed

text \<open>
  Claim C2, amended: \<open>detect_corner_with_templates\<close> returns \<open>(None, None, 0.0)\<close> when
  the image is \<open>None\<close>. Otherwise the confidence it returns is the maximum of 0.0 and
  of the largest correlations of all pairs of a template and a scale whose scaled
  template fits inside the search region (the top right quadrant when no region is
  given). When that confidence is positive, the location is the centre of the scaled
  template of the first pair that attains it, in full-image coordinates; when no pair
  fits or no pair has a positive correlation, the result is \<open>(None, None, 0.0)\<close>.
\<close>

theorem detect_corner_best_match:
  assumes "region_of image_gray search_region = (x_start, y_start, region_w, region_h)"
    and "search_area = slice2 image_gray y_start (y_start + region_h) x_start (x_start + region_w)"
    and "ms = fitting_matches match search_area (x_start, y_start, region_w, region_h) scales templates"
    and "detect_corner_with_templates match (Some image_gray) templates search_region scales = (x, y, c)"
  shows "detect_corner_with_templates match None templates search_region scales = (None, None, 0)
    \<and> c = Max (insert 0 (fst ` set ms))
    \<and> (0 < c \<longrightarrow>
         (\<exists>k<length ms. fst (ms ! k) = c \<and> (\<forall>j<k. fst (ms ! j) < c)
            \<and> x = Some (fst (snd (ms ! k))) \<and> y = Some (snd (snd (ms ! k)))))
    \<and> (c \<le> 0 \<longrightarrow> c = 0 \<and> x = None \<and> y = None)"
proof -
  obtain l where fb: "first_best ms (0, (None, None)) = (c, l)" and xy: "x = fst l" "y = snd l"
    using assms
    by (auto simp: detect_corner_with_templates_def templates_loop_first_best Let_def
        split: prod.splits)
  have "detect_corner_with_templates match None templates search_region scales = (None, None, 0)"
    by (simp add: detect_corner_with_templates_def)
  moreover have "c = Max (insert 0 (fst ` set ms))"
    by (rule first_best_spec(1) [OF fb])
  moreover have "0 < c \<longrightarrow>
         (\<exists>k<length ms. fst (ms ! k) = c \<and> (\<forall>j<k. fst (ms ! j) < c)
            \<and> x = Some (fst (snd (ms ! k))) \<and> y = Some (snd (snd (ms ! k))))"
  proof
    assume "0 < c"
    from first_best_spec(2) [OF fb this] show
      "\<exists>k<length ms. fst (ms ! k) = c \<and> (\<forall>j<k. fst (ms ! j) < c)
            \<and> x = Some (fst (snd (ms ! k))) \<and> y = Some (snd (snd (ms ! k)))"
      using xy by auto
  qed
  moreover have "c \<le> 0 \<longrightarrow> c = 0 \<and> x = None \<and> y = None"
  proof
    assume "c \<le> 0"
    from first_best_spec(3) [OF fb this] show "c = 0 \<and> x = None \<and> y = None"
      using xy by simp
  qed
  ultimately show ?thesis by (intro conjI)
qed

lemma sample_matches:
  "fitting_matches sample_match
       (slice2 sample_image 0 (0 + 4) 4 (4 + 4)) (4, 0, 4, 4) DEFAULT_SCALES [sample_template]
     = [(1 / 5, 6, 1), (3 / 10, 6, 1), (2 / 5, 7, 2)]"
  by code_simp

lemma sample_region: "region_of sample_image None = (4, 0, 4, 4)"
  by code_simp

lemma sample_detect:
  "detect_corner_with_templates sample_match (Some sample_image) [sample_template] None
     DEFAULT_SCALES = (Some 7, Some 2, 2 / 5)"
  by code_simp

theorem detect_corner_best_match_witness:
  "region_of sample_image None = (4, 0, 4, 4)
   \<and> detect_corner_with_templates sample_match (Some sample_image) [sample_template] None
        DEFAULT_SCALES = (Some 7, Some 2, 2 / 5)
   \<and> (2 / 5 :: real) = Max (insert 0 (fst ` set [(1 / 5 :: real, 6 :: int, 1 :: int), (3 / 10, 6, 1), (2 / 5, 7, 2)]))
   \<and> (0 :: real) < 2 / 5
   \<and> (\<exists>k<length [(1 / 5 :: real, 6 :: int, 1 :: int), (3 / 10, 6, 1), (2 / 5, 7, 2)].
         fst ([(1 / 5 :: real, 6 :: int, 1 :: int), (3 / 10, 6, 1), (2 / 5, 7, 2)] ! k) = 2 / 5
         \<and> Some (7 :: int) = Some (fst (snd ([(1 / 5 :: real, 6 :: int, 1 :: int), (3 / 10, 6, 1), (2 / 5, 7, 2)] ! k)))
         \<and> Some (2 :: int) = Some (snd (snd ([(1 / 5 :: real, 6 :: int, 1 :: int), (3 / 10, 6, 1), (2 / 5, 7, 2)] ! k))))"
proof -
  have p: "(0 :: real) < 2 / 5" by simp
  from detect_corner_best_match [OF sample_region refl sample_matches [symmetric] sample_detect]
  show ?thesis using p sample_region sample_detect by blast
qed

lemma detect_loop_lookup:
  "detect_loop match imread templates thr files annotations f =
     (if f \<in> set files \<and> imread f \<noteq> None
      then Some (annotation_entry match templates thr (the (imread f)))
      else annotations f)"
proof (induction files arbitrary: annotations)
  case Nil
  show ?case by simp
next
  case (Cons g files)
  show ?case
  proof (cases "imread g")
    case None
    then have step: "detect_loop match imread templates thr (g # files) annotations
        = detect_loop match imread templates thr files annotations"
      by simp
    show ?thesis unfolding step Cons.IH using None by auto
  next
    case (Some img)
    then have step: "detect_loop match imread templates thr (g # files) annotations
        = detect_loop match imread templates thr files
            (annotations(g \<mapsto> annotation_entry match templates thr img))"
      by simp
    show ?thesis unfolding step Cons.IH using Some by auto
  qed
qed

lemma annotation_entry_review:
  assumes "detect_corner_with_templates match (Some img) templates None DEFAULT_SCALES = (x, y, c)"
  shows "needs_review (annotation_entry match templates thr img) =
     (if x \<noteq> None \<and> y \<noteq> None \<and> c \<ge> thr then None else Some True)"
  using assms by (simp add: annotation_entry_def)

text \<open>
  Claim C8, as stated, fails when no template image is loaded: \<open>auto_detect_corners\<close>
  then returns before the loop and writes no annotations, although the image directory
  holds an image file that qualifies and loads.
\<close>

theorem auto_detect_no_templates:
  "auto_detect_corners sample_match (\<lambda>f. None) (\<lambda>f. Some sample_image) [''t.png''] [''a.jpg'']
     (1 / 2) = None
   \<and> is_image_file ''a.jpg'' \<and> \<not> sublist ''_distorted'' ''a.jpg''"
  by code_simp

text \<open>
  Claim C8, amended: when at least one template image is loaded, the annotations that
  \<open>auto_detect_corners\<close> writes contain exactly one entry for each file of the image
  directory that has a \<open>.jpg\<close>, \<open>.jpeg\<close> or \<open>.png\<close> extension, does not contain
  \<open>_distorted\<close> in its name and loads successfully. The entry of a file has no
  \<open>needs_review\<close> key exactly when the detection on its image found a location with a
  confidence of at least \<open>confidence_threshold\<close>; otherwise \<open>needs_review\<close> is true.
\<close>

theorem auto_detect_corners_entries:
  assumes "load_templates imread_template template_dir \<noteq> []"
  shows "\<exists>annotations.
      auto_detect_corners match imread_template imread template_dir image_dir confidence_threshold
        = Some annotations
      \<and> dom annotations
          = {f \<in> set image_dir. is_image_file f \<and> \<not> sublist ''_distorted'' f \<and> imread f \<noteq> None}
      \<and> (\<forall>f e. annotations f = Some e \<longrightarrow>
           (\<exists>img x y c.
              imread f = Some img
              \<and> detect_corner_with_templates match (Some img)
                    (load_templates imread_template template_dir) None DEFAULT_SCALES = (x, y, c)
              \<and> (needs_review e = None \<longleftrightarrow> x \<noteq> None \<and> y \<noteq> None \<and> c \<ge> confidence_threshold)
              \<and> (needs_review e \<noteq> None \<longrightarrow> needs_review e = Some True)))"
proof -
  define templates where "templates = load_templates imread_template template_dir"
  define files where
    "files = filter (\<lambda>f. \<not> sublist ''_distorted'' f) (filter is_image_file image_dir)"
  define ann where
    "ann = detect_loop match imread templates confidence_threshold files Map.empty"
  have run: "auto_detect_corners match imread_template imread template_dir image_dir
      confidence_threshold = Some ann"
    unfolding ann_def files_def templates_def
    using assms by (simp add: auto_detect_corners_def Let_def)
  have look: "ann f =
      (if f \<in> set files \<and> imread f \<noteq> None
       then Some (annotation_entry match templates confidence_threshold (the (imread f)))
       else None)" for f
    unfolding ann_def by (simp add: detect_loop_lookup)
  have fs: "set files = {f \<in> set image_dir. is_image_file f \<and> \<not> sublist ''_distorted'' f}"
    unfolding files_def by auto
  have "dom ann = {f \<in> set files. imread f \<noteq> None}"
    by (auto simp: look dom_def split: if_splits)
  then have d: "dom ann
      = {f \<in> set image_dir. is_image_file f \<and> \<not> sublist ''_distorted'' f \<and> imread f \<noteq> None}"
    unfolding fs by auto
  have e: "\<forall>f e. ann f = Some e \<longrightarrow>
           (\<exists>img x y c.
              imread f = Some img
              \<and> detect_corner_with_templates match (Some img) templates None DEFAULT_SCALES = (x, y, c)
              \<and> (needs_review e = None \<longleftrightarrow> x \<noteq> None \<and> y \<noteq> None \<and> c \<ge> confidence_threshold)
              \<and> (needs_review e \<noteq> None \<longrightarrow> needs_review e = Some True))"
  proof (intro allI impI)
    fix f e assume fe: "ann f = Some e"
    then have in_f: "f \<in> set files \<and> imread f \<noteq> None"
      by (simp add: look split: if_splits)
    then obtain img where img: "imread f = Some img" by auto
    with fe in_f have e: "e = annotation_entry match templates confidence_threshold img"
      by (simp add: look)
    obtain x y c where
      det: "detect_corner_with_templates match (Some img) templates None DEFAULT_SCALES = (x, y, c)"
      by (cases "detect_corner_with_templates match (Some img) templates None DEFAULT_SCALES")
    have "needs_review e = (if x \<noteq> None \<and> y \<noteq> None \<and> c \<ge> confidence_threshold then None else Some True)"
      unfolding e by (rule annotation_entry_review [OF det])
    then have r: "(needs_review e = None \<longleftrightarrow> x \<noteq> None \<and> y \<noteq> None \<and> c \<ge> confidence_threshold)
        \<and> (needs_review e \<noteq> None \<longrightarrow> needs_review e = Some True)"
      by (simp split: if_splits)
    have "imread f = Some img
              \<and> detect_corner_with_templates match (Some img) templates None DEFAULT_SCALES = (x, y, c)
              \<and> (needs_review e = None \<longleftrightarrow> x \<noteq> None \<and> y \<noteq> None \<and> c \<ge> confidence_threshold)
              \<and> (needs_review e \<noteq> None \<longrightarrow> needs_review e = Some True)"
      using img det r by (intro conjI) (assumption, assumption, erule conjunct1, erule conjunct2)
    then show "\<exists>img x y c.
              imread f = Some img
              \<and> detect_corner_with_templates match (Some img) templates None DEFAULT_SCALES = (x, y, c)
              \<and> (needs_review e = None \<longleftrightarrow> x \<noteq> None \<and> y \<noteq> None \<and> c \<ge> confidence_threshold)
              \<and> (needs_review e \<noteq> None \<longrightarrow> needs_review e = Some True)"
      by (intro exI)
  qed
  show ?thesis
    using run d e unfolding templates_def by blast
qed

lemma sample_templates_loaded: "load_templates sample_imread_template [''t.png''] \<noteq> []"
  by code_simp

lemma sample_entry:
  "map_option (\<lambda>annotations. (annotations ''a.jpg'', annotations ''a_distorted.jpg'', annotations ''d.png''))
     (auto_detect_corners sample_match sample_imread_template sample_imread [''t.png'']
        sample_image_dir (1 / 4))
   = Some (Some \<lparr>det_x = Some 7, det_y = Some 2, confidence = 2 / 5, needs_review = None\<rparr>,
           None, None)"
  by code_simp

lemma sample_entry_review:
  "map_option (\<lambda>annotations. annotations ''a.jpg'')
     (auto_detect_corners sample_match sample_imread_template sample_imread [''t.png'']
        sample_image_dir (1 / 2))
   = Some (Some \<lparr>det_x = Some 7, det_y = Some 2, confidence = 2 / 5, needs_review = Some True\<rparr>)"
  by code_simp

theorem auto_detect_corners_entries_witness:
  "load_templates sample_imread_template [''t.png''] \<noteq> []
   \<and> (\<exists>annotations.
        auto_detect_corners sample_match sample_imread_template sample_imread [''t.png'']
          sample_image_dir (1 / 4) = Some annotations
        \<and> dom annotations
            = {f \<in> set sample_image_dir.
                 is_image_file f \<and> \<not> sublist ''_distorted'' f \<and> sample_imread f \<noteq> None}
        \<and> annotations ''a.jpg''
            = Some \<lparr>det_x = Some 7, det_y = Some 2, confidence = 2 / 5, needs_review = None\<rparr>
        \<and> annotations ''a_distorted.jpg'' = None
        \<and> annotations ''d.png'' = None)"
proof -
  from auto_detect_corners_entries [OF sample_templates_loaded, of sample_match sample_imread
      sample_image_dir "1 / 4"]
  obtain annotations where
    a: "auto_detect_corners sample_match sample_imread_template sample_imread [''t.png'']
          sample_image_dir (1 / 4) = Some annotations"
    and d: "dom annotations
            = {f \<in> set sample_image_dir.
                 is_image_file f \<and> \<not> sublist ''_distorted'' f \<and> sample_imread f \<noteq> None}"
    by blast
  from sample_entry a have
    "annotations ''a.jpg''
       = Some \<lparr>det_x = Some 7, det_y = Some 2, confidence = 2 / 5, needs_review = None\<rparr>"
    "annotations ''a_distorted.jpg'' = None" "annotations ''d.png'' = None"
    by simp_all
  with a d sample_templates_loaded show ?thesis by blast
qed
section \<open>Properties of the binary matrix\<close>

lemma pattern_5x5_nth:
  "i < 5 \<Longrightarrow> j < 5 \<Longrightarrow> pattern_5x5 g ! i ! j = cell_entry g i j"
  by (simp add: pattern_5x5_def)

lemma pattern_6x6_nth:
  "i < 6 \<Longrightarrow> j < 6 \<Longrightarrow>
   pattern_6x6 g ! i ! j = (if i < 5 \<and> j < 5 then cell_entry g i j else 0)"
  by (simp add: pattern_6x6_def pattern_5x5_nth)

lemma pattern_6x6_length: "length (pattern_6x6 g) = 6"
  by (simp add: pattern_6x6_def)

lemma pattern_6x6_row_length: "i < 6 \<Longrightarrow> length (pattern_6x6 g ! i) = 6"
  by (simp add: pattern_6x6_def)

lemma cell_entry_binary: "cell_entry g i j \<in> {0, 1}"
  by (simp add: cell_entry_def Let_def split: prod.splits)

lemma cell_entry_one_iff:
  "cell_entry g i j = 1 \<longleftrightarrow>
   (case cell_bounds g i j of (y_start, y_end, x_start, x_end) \<Rightarrow>
      y_end > y_start \<and> x_end > x_start
      \<and> np_mean (slice2 g y_start y_end x_start x_end) < 128)"
  by (auto simp: cell_entry_def Let_def split: prod.splits)

lemma sample_grid_matrix:
  "pattern_6x6 sample_grid =
    [[1, 0, 1, 0, 1, 0],
     [0, 0, 0, 0, 0, 0],
     [1, 1, 1, 1, 1, 0],
     [0, 0, 0, 1, 0, 0],
     [1, 0, 1, 0, 1, 0],
     [0, 0, 0, 0, 0, 0]]"
  by (simp add: pattern_6x6_def pattern_5x5_def cell_entry_def cell_bounds_def shape_def
      slice2_def np_mean_def sample_grid_def upt_rec)

text \<open>
  Claim C10: the matrix printed by the script is 6 by 6, every entry is 0 or 1, its
  sixth row and sixth column are 0 throughout, and its upper left 5 by 5 block is the
  thresholded cell pattern \<open>pattern_5x5\<close>, whose entry is 1 exactly when the cell's
  sampling window is not empty and its mean is below 128.
\<close>

theorem pattern_6x6_zero_padded:
  "length (pattern_6x6 g) = 6
   \<and> (\<forall>i<6. length (pattern_6x6 g ! i) = 6)
   \<and> (\<forall>i<6. \<forall>j<6. pattern_6x6 g ! i ! j \<in> {0, 1})
   \<and> (\<forall>k<6. pattern_6x6 g ! 5 ! k = 0 \<and> pattern_6x6 g ! k ! 5 = 0)
   \<and> (\<forall>i<5. \<forall>j<5.
        pattern_6x6 g ! i ! j = pattern_5x5 g ! i ! j
        \<and> (pattern_5x5 g ! i ! j = 1 \<longleftrightarrow>
           (case cell_bounds g i j of (y_start, y_end, x_start, x_end) \<Rightarrow>
              y_end > y_start \<and> x_end > x_start
              \<and> np_mean (slice2 g y_start y_end x_start x_end) < 128)))"
proof (intro conjI allI impI)
  show "length (pattern_6x6 g) = 6" by (rule pattern_6x6_length)
next
  fix i :: nat assume "i < 6"
  then show "length (pattern_6x6 g ! i) = 6" by (rule pattern_6x6_row_length)
next
  fix i j :: nat assume "i < 6" "j < 6"
  then show "pattern_6x6 g ! i ! j \<in> {0, 1}"
    using cell_entry_binary [of g i j] by (simp add: pattern_6x6_nth)
next
  fix k :: nat assume "k < 6"
  then show "pattern_6x6 g ! 5 ! k = 0" by (simp add: pattern_6x6_nth)
next
  fix k :: nat assume "k < 6"
  then show "pattern_6x6 g ! k ! 5 = 0" by (simp add: pattern_6x6_nth)
next
  fix i j :: nat assume "i < 5" "j < 5"
  then show "pattern_6x6 g ! i ! j = pattern_5x5 g ! i ! j"
    by (simp add: pattern_6x6_nth pattern_5x5_nth)
next
  fix i j :: nat assume "i < 5" "j < 5"
  then show "pattern_5x5 g ! i ! j = 1 \<longleftrightarrow>
    (case cell_bounds g i j of (y_start, y_end, x_start, x_end) \<Rightarrow>
       y_end > y_start \<and> x_end > x_start
       \<and> np_mean (slice2 g y_start y_end x_start x_end) < 128)"
    by (simp add: pattern_5x5_nth cell_entry_one_iff)
qed

theorem pattern_6x6_zero_padded_witness:
  "length (pattern_6x6 sample_grid) = 6
   \<and> length (pattern_6x6 sample_grid ! 3) = 6
   \<and> pattern_6x6 sample_grid ! 3 ! 3 \<in> {0, 1}
   \<and> pattern_6x6 sample_grid ! 5 ! 2 = 0
   \<and> pattern_6x6 sample_grid ! 2 ! 5 = 0
   \<and> pattern_6x6 sample_grid ! 3 ! 3 = pattern_5x5 sample_grid ! 3 ! 3
   \<and> pattern_6x6 sample_grid ! 3 ! 3 = 1
   \<and> pattern_6x6 sample_grid ! 3 ! 4 = 0"
proof -
  have b: "(3::nat) < 6" "(2::nat) < 6" "(3::nat) < 5" by simp_all
  have v: "pattern_6x6 sample_grid ! 3 ! 3 = 1" "pattern_6x6 sample_grid ! 3 ! 4 = 0"
    by (simp_all add: sample_grid_matrix)
  show ?thesis
    using pattern_6x6_zero_padded [of sample_grid] b v by simp
qed

end
